theory Spec2Isabelle
  imports Complex_Main
begin

section \<open>Strings and exceptions\<close>

text \<open>
  A Python \<open>str\<close> is modelled as a \<open>string\<close>, one \<open>char\<close> per code point. The two
  non-ASCII letters that occur in the literals of \<open>main.py\<close> are U+00C9 and U+00E9,
  written \<open>CHR 0xC9\<close> and \<open>CHR 0xE9\<close>.

  A raised exception is a value \<open>Exn kind msg\<close>, where \<open>msg\<close> is what \<open>str(e)\<close> returns.
  A computation that may raise returns \<open>exn + 'a\<close>, with \<open>Inl\<close> for the exception.
\<close>

datatype exn = Exn (exn_kind: string) (exn_msg: string)

section \<open>The document-type resolver\<close>

text \<open>The values of the \<open>Literal[...]\<close> annotation of \<open>GeneratePdfRequest.type\<close>.\<close>

definition document_types :: "string list" where
  "document_types =
    [''bon-livraison'', ''bon-commande'', ''facture'', ''facture-proforma'', ''proforma'',
     ''bon-retour'', ''facture-avoir'', ''bon-versement'', ''bon-reception'']"

text \<open>The dictionary \<open>titles\<close> of \<open>get_document_title\<close>, in source order.\<close>

definition titles :: "(string \<times> string) list" where
  "titles =
    [(''bon-livraison'', ''BON DE LIVRAISON''),
     (''bon-commande'', ''BON DE COMMANDE''),
     (''facture'', ''FACTURE''),
     (''facture-proforma'', ''FACTURE PROFORMA''),
     (''proforma'', ''FACTURE PROFORMA''),
     (''bon-retour'', ''BON DE RETOUR''),
     (''facture-avoir'', ''FACTURE AVOIR''),
     (''bon-versement'', ''BON DE VERSEMENT''),
     (''bon-reception'', ''BON DE R'' @ [CHR 0xC9] @ ''CEPTION'')]"

text \<open>\<open>titles.get(doc_type, "DOCUMENT")\<close>\<close>

definition get_document_title :: "string \<Rightarrow> string" where
  "get_document_title doc_type =
    (case map_of titles doc_type of Some t \<Rightarrow> t | None \<Rightarrow> ''DOCUMENT'')"

section \<open>Python numbers\<close>

text \<open>
  A Python \<open>float\<close> is an IEEE 754 binary64 number: \<open>Fin r\<close> is the finite double whose
  exact value is the rational \<open>r\<close>, the other constructors are the two infinities and
  not-a-number. The sign of a zero is not kept. Every arithmetic operation computes the
  exact result and rounds it to the nearest double, ties to even (\<open>round_double\<close>),
  overflowing to an infinity. A Python number is an \<open>int\<close> or a \<open>float\<close>.
\<close>

datatype pyfloat = Fin rat | PInf | NInf | NaN

datatype pynum = PyInt int | PyFloat pyfloat

definition pow2 :: "int \<Rightarrow> rat" where
  "pow2 e = (if 0 \<le> e then 2 ^ nat e else 1 / 2 ^ nat (- e))"

text \<open>The number of binary digits of a positive integer.\<close>

function bitlen :: "int \<Rightarrow> int" where
  "bitlen n = (if n \<le> 0 then 0 else bitlen (n div 2) + 1)"
  by pat_completeness auto
termination
  by (relation "measure nat") auto

declare bitlen.simps [simp del]

text \<open>For \<open>0 < a\<close>, the exponent \<open>e\<close> with \<open>2^e \<le> a < 2^(e+1)\<close>.\<close>

definition floor_log2 :: "rat \<Rightarrow> int" where
  "floor_log2 a = (if 1 \<le> a then bitlen \<lfloor>a\<rfloor> - 1 else - bitlen (\<lceil>1 / a\<rceil> - 1))"

definition round_half_even :: "rat \<Rightarrow> int" where
  "round_half_even x =
    (let f = \<lfloor>x\<rfloor>; d = x - of_int f
     in if d < 1 / 2 then f
        else if 1 / 2 < d then f + 1
        else if even f then f else f + 1)"

text \<open>
  Rounding to binary64: 53 significant bits, least exponent \<open>-1022\<close> (below it the
  spacing stays \<open>2^-1074\<close>), overflow from \<open>2^1024\<close> on.
\<close>

definition round_double :: "rat \<Rightarrow> pyfloat" where
  "round_double x =
    (if x = 0 then Fin 0
     else let a = \<bar>x\<bar>;
              e = max (floor_log2 a) (- 1022);
              q = pow2 (e - 52);
              y = of_int (round_half_even (a / q)) * q
          in if pow2 1024 \<le> y then (if 0 < x then PInf else NInf)
             else Fin (if 0 < x then y else - y))"

definition fneg :: "pyfloat \<Rightarrow> pyfloat" where
  "fneg x = (case x of Fin a \<Rightarrow> Fin (- a) | PInf \<Rightarrow> NInf | NInf \<Rightarrow> PInf | NaN \<Rightarrow> NaN)"

fun fadd :: "pyfloat \<Rightarrow> pyfloat \<Rightarrow> pyfloat" where
  "fadd (Fin a) (Fin b) = round_double (a + b)"
| "fadd NaN y = NaN"
| "fadd x NaN = NaN"
| "fadd PInf NInf = NaN"
| "fadd NInf PInf = NaN"
| "fadd PInf y = PInf"
| "fadd NInf y = NInf"
| "fadd x PInf = PInf"
| "fadd x NInf = NInf"

definition fsub :: "pyfloat \<Rightarrow> pyfloat \<Rightarrow> pyfloat" where
  "fsub x y = fadd x (fneg y)"

definition inf_of_sign :: "bool \<Rightarrow> pyfloat" where
  "inf_of_sign positive = (if positive then PInf else NInf)"

fun fmul :: "pyfloat \<Rightarrow> pyfloat \<Rightarrow> pyfloat" where
  "fmul (Fin a) (Fin b) = round_double (a * b)"
| "fmul NaN y = NaN"
| "fmul x NaN = NaN"
| "fmul (Fin a) PInf = (if a = 0 then NaN else inf_of_sign (0 < a))"
| "fmul (Fin a) NInf = (if a = 0 then NaN else inf_of_sign (a < 0))"
| "fmul PInf (Fin b) = (if b = 0 then NaN else inf_of_sign (0 < b))"
| "fmul NInf (Fin b) = (if b = 0 then NaN else inf_of_sign (b < 0))"
| "fmul PInf PInf = PInf"
| "fmul PInf NInf = NInf"
| "fmul NInf PInf = NInf"
| "fmul NInf NInf = PInf"

text \<open>Float division; Python raises \<open>ZeroDivisionError\<close> for a zero divisor.\<close>

fun fdiv :: "pyfloat \<Rightarrow> pyfloat \<Rightarrow> exn + pyfloat" where
  "fdiv x (Fin b) =
    (if b = 0 then Inl (Exn ''ZeroDivisionError'' ''float division by zero'')
     else case x of
       Fin a \<Rightarrow> Inr (round_double (a / b))
     | PInf \<Rightarrow> Inr (inf_of_sign (0 < b))
     | NInf \<Rightarrow> Inr (inf_of_sign (b < 0))
     | NaN \<Rightarrow> Inr NaN)"
| "fdiv x NaN = Inr NaN"
| "fdiv (Fin a) y = Inr (Fin 0)"
| "fdiv x y = Inr NaN"

text \<open>
  Conversion of an \<open>int\<close> operand of a mixed operation. The integers converted in
  \<open>main.py\<close> are the literals \<open>0\<close> and \<open>100\<close> and the truncation of a float, all of them
  doubles, so the \<open>OverflowError\<close> of a too large integer does not arise.
\<close>

definition to_float :: "pynum \<Rightarrow> pyfloat" where
  "to_float n = (case n of PyInt i \<Rightarrow> round_double (of_int i) | PyFloat f \<Rightarrow> f)"

definition num_add :: "pynum \<Rightarrow> pynum \<Rightarrow> pynum" where
  "num_add a b =
    (case (a, b) of
       (PyInt i, PyInt j) \<Rightarrow> PyInt (i + j)
     | _ \<Rightarrow> PyFloat (fadd (to_float a) (to_float b)))"

definition num_sub :: "pynum \<Rightarrow> pynum \<Rightarrow> pynum" where
  "num_sub a b =
    (case (a, b) of
       (PyInt i, PyInt j) \<Rightarrow> PyInt (i - j)
     | _ \<Rightarrow> PyFloat (fsub (to_float a) (to_float b)))"

definition num_mul :: "pynum \<Rightarrow> pynum \<Rightarrow> pynum" where
  "num_mul a b =
    (case (a, b) of
       (PyInt i, PyInt j) \<Rightarrow> PyInt (i * j)
     | _ \<Rightarrow> PyFloat (fmul (to_float a) (to_float b)))"

text \<open>True division \<open>a / b\<close>, always a float.\<close>

definition num_truediv :: "pynum \<Rightarrow> pynum \<Rightarrow> exn + pynum" where
  "num_truediv a b =
    (case fdiv (to_float a) (to_float b) of Inl e \<Rightarrow> Inl e | Inr f \<Rightarrow> Inr (PyFloat f))"

text \<open>Truth value of an optional float: \<open>None\<close> and zero are false, NaN is true.\<close>

definition or_zero :: "pyfloat option \<Rightarrow> pynum" where
  "or_zero v =
    (case v of None \<Rightarrow> PyInt 0 | Some f \<Rightarrow> if f = Fin 0 then PyInt 0 else PyFloat f)"

text \<open>\<open>int(n)\<close> truncates towards zero.\<close>

definition py_int :: "pynum \<Rightarrow> exn + int" where
  "py_int n =
    (case n of
       PyInt i \<Rightarrow> Inr i
     | PyFloat (Fin r) \<Rightarrow> Inr (if 0 \<le> r then \<lfloor>r\<rfloor> else \<lceil>r\<rceil>)
     | PyFloat NaN \<Rightarrow> Inl (Exn ''ValueError'' ''cannot convert float NaN to integer'')
     | PyFloat _ \<Rightarrow> Inl (Exn ''OverflowError'' ''cannot convert float infinity to integer''))"

text \<open>\<open>round(n)\<close> with one argument returns an \<open>int\<close>, ties to even.\<close>

definition py_round :: "pynum \<Rightarrow> exn + int" where
  "py_round n =
    (case n of
       PyInt i \<Rightarrow> Inr i
     | PyFloat (Fin r) \<Rightarrow> Inr (round_half_even r)
     | PyFloat NaN \<Rightarrow> Inl (Exn ''ValueError'' ''cannot convert float NaN to integer'')
     | PyFloat _ \<Rightarrow> Inl (Exn ''OverflowError'' ''cannot convert float infinity to integer''))"

section \<open>Formatting with two decimals\<close>

definition digit_char :: "int \<Rightarrow> char" where
  "digit_char d = ''0123456789'' ! nat d"

function digits :: "int \<Rightarrow> string" where
  "digits n = (if n < 10 then [digit_char n] else digits (n div 10) @ [digit_char (n mod 10)])"
  by pat_completeness auto
termination
  by (relation "measure nat") auto

declare digits.simps [simp del]

text \<open>
  The format \<open>.2f\<close>: the exact value rounded to hundredths, ties to even, the sign
  of a negative value kept also when it rounds to zero.
\<close>

definition format_2f_float :: "pyfloat \<Rightarrow> string" where
  "format_2f_float x =
    (case x of
       Fin r \<Rightarrow>
         (let c = round_half_even (\<bar>r\<bar> * 100);
              body = digits (c div 100) @ ''.''
                @ [digit_char ((c div 10) mod 10), digit_char (c mod 10)]
          in if r < 0 then ''-'' @ body else body)
     | PInf \<Rightarrow> ''inf''
     | NInf \<Rightarrow> ''-inf''
     | NaN \<Rightarrow> ''nan'')"

definition format_2f :: "pynum \<Rightarrow> string" where
  "format_2f n = format_2f_float (to_float n)"

text \<open>
  The shape of a number printed with two decimals: an optional minus sign, at least one
  digit, a point, and exactly two digits.
\<close>

definition is_digit :: "char \<Rightarrow> bool" where
  "is_digit c = (c \<in> set ''0123456789'')"

definition two_decimal_string :: "string \<Rightarrow> bool" where
  "two_decimal_string s =
    (let u = (if s \<noteq> [] \<and> hd s = CHR ''-'' then tl s else s);
         int_part = takeWhile is_digit u;
         rest = dropWhile is_digit u
     in int_part \<noteq> []
        \<and> (case rest of
             [c, d1, d2] \<Rightarrow> c = CHR ''.'' \<and> is_digit d1 \<and> is_digit d2
           | _ \<Rightarrow> False))"

definition is_finite :: "pyfloat \<Rightarrow> bool" where
  "is_finite x = (case x of Fin r \<Rightarrow> True | _ \<Rightarrow> False)"

section \<open>The built-in sum\<close>

text \<open>
  \<open>sum(xs)\<close> starts from the integer \<open>0\<close>. Up to CPython 3.11 it adds the items one after
  the other. From CPython 3.12 on it adds integer items as C longs while they fit, and once
  the running total is a float it adds float items with the compensated summation of
  Neumaier: the rounding error of every addition is accumulated apart, and the accumulated
  compensation is added to the total at the end, unless it is zero or not finite. The
  argument \<open>compensated\<close> of \<open>py_sum\<close> tells which of the two the interpreter does.
\<close>

definition long_ok :: "int \<Rightarrow> bool" where
  "long_ok i = (- (2 ^ 63) \<le> i \<and> i < 2 ^ 63)"

text \<open>\<open>fabs(x) >= fabs(y)\<close>, false when one of them is not a number.\<close>

fun fabs_ge :: "pyfloat \<Rightarrow> pyfloat \<Rightarrow> bool" where
  "fabs_ge NaN y = False"
| "fabs_ge x NaN = False"
| "fabs_ge (Fin a) (Fin b) = (\<bar>b\<bar> \<le> \<bar>a\<bar>)"
| "fabs_ge (Fin a) y = False"
| "fabs_ge x y = True"

text \<open>The compensation after adding \<open>x\<close> to the total \<open>f\<close>.\<close>

definition compensate :: "pyfloat \<Rightarrow> pyfloat \<Rightarrow> pyfloat \<Rightarrow> pyfloat" where
  "compensate f c x =
    (let t = fadd f x
     in if fabs_ge f x then fadd c (fadd (fsub f t) x) else fadd c (fadd (fsub x t) f))"

text \<open>\<open>if (c && isfinite(c)) f_result += c\<close>\<close>

definition add_compensation :: "pyfloat \<Rightarrow> pyfloat \<Rightarrow> pyfloat" where
  "add_compensation f c = (if c \<noteq> Fin 0 \<and> is_finite c then fadd f c else f)"

text \<open>
  The loop over the items while the total is a float; an integer that does not fit a C long
  ends it, and the remaining items are added one after the other.
\<close>

fun sum_float_block :: "pyfloat \<Rightarrow> pyfloat \<Rightarrow> pynum list \<Rightarrow> pynum" where
  "sum_float_block f c [] = PyFloat (add_compensation f c)"
| "sum_float_block f c (PyFloat x # xs) = sum_float_block (fadd f x) (compensate f c x) xs"
| "sum_float_block f c (PyInt v # xs) =
    (if long_ok v then sum_float_block (fadd f (to_float (PyInt v))) c xs
     else foldl num_add (PyFloat (add_compensation f c)) (PyInt v # xs))"

text \<open>The loop over the items while the total is an integer that fits a C long.\<close>

fun sum_int_block :: "int \<Rightarrow> pynum list \<Rightarrow> pynum" where
  "sum_int_block i [] = PyInt i"
| "sum_int_block i (PyInt v # xs) =
    (if long_ok v \<and> long_ok (i + v) then sum_int_block (i + v) xs
     else foldl num_add (PyInt (i + v)) xs)"
| "sum_int_block i (PyFloat x # xs) = sum_float_block (fadd (to_float (PyInt i)) x) (Fin 0) xs"

definition py_sum :: "bool \<Rightarrow> pynum list \<Rightarrow> pynum" where
  "py_sum compensated xs =
    (if compensated then sum_int_block 0 xs else foldl num_add (PyInt 0) xs)"

section \<open>The request model\<close>

text \<open>
  The pydantic models of \<open>main.py\<close>. An \<open>Optional\<close> field is an \<open>option\<close>; a field of type
  \<open>float\<close> holds a \<open>pyfloat\<close>. The fields of \<open>ClientInfo\<close> that share a name with a field of
  \<open>CompanyInfo\<close> carry the prefix \<open>client_\<close>.
\<close>

record CompanyInfo =
  raisonSociale :: string
  adresse :: string
  telephone :: string
  email :: "string option"
  nif :: string
  nis :: string
  rc :: string
  art :: "string option"

record ClientInfo =
  nom :: string
  client_adresse :: string
  client_telephone :: "string option"
  client_nif :: "string option"
  client_nis :: "string option"
  client_art :: "string option"

record DocumentInfo =
  numero :: string
  date :: string
  bonCommande :: "string option"
  dateLivraison :: "string option"
  dateEcheance :: "string option"
  conditions :: "string option"
  modePaiement :: "string option"
  facture :: "string option"
  motifGeneral :: "string option"

record Product =
  designation :: string
  quantite :: pyfloat
  unite :: string
  prixUnitaire :: "pyfloat option"
  tauxTVA :: "pyfloat option"
  observation :: "string option"
  motifRetour :: "string option"

record Totals =
  totalHT :: string
  totalTVA :: string
  totalTTC :: string

record GeneratePdfRequest =
  type :: string
  companyInfo :: CompanyInfo
  clientInfo :: ClientInfo
  documentInfo :: DocumentInfo
  products :: "Product list"
  totals :: "Totals option"
  logoUrl :: "string option"

text \<open>The dictionary \<open>context\<close> passed to the template, one field per key.\<close>

record template_context =
  document_title :: string
  company :: CompanyInfo
  client :: ClientInfo
  document :: DocumentInfo
  ctx_products :: "Product list"
  ctx_totals :: "Totals option"
  ctx_type :: string
  generated_date :: string
  total_ttc_words :: string
  logo_url :: "string option"

record Response =
  content :: string
  media_type :: string
  headers :: "(string \<times> string) list"

record HTTPException =
  status_code :: nat
  detail :: string

section \<open>The environment\<close>

text \<open>
  What \<open>main.py\<close> calls and does not define: the library function \<open>num2words\<close> (with
  \<open>lang='fr'\<close>), the built-ins \<open>float\<close> on a string and \<open>str\<close> on a number, the template
  loader and renderer of the Jinja environment, the page renderer, and the clock
  (already formatted with \<open>%d/%m/%Y %H:%M\<close>). Each of them that can raise returns a sum.
  A template is known by its source text, a PDF by its bytes. The field
  \<open>compensated_sum\<close> tells whether the interpreter is one whose \<open>sum\<close> compensates
  (CPython 3.12 or later); the repository does not fix the version.
\<close>

type_synonym template = string

record env =
  num2words :: "int \<Rightarrow> exn + string"
  py_float :: "string \<Rightarrow> exn + pyfloat"
  py_str :: "pynum \<Rightarrow> string"
  get_template :: "string \<Rightarrow> exn + template"
  render :: "template \<Rightarrow> template_context \<Rightarrow> exn + string"
  write_pdf :: "string \<Rightarrow> string \<Rightarrow> exn + string"
  now :: string
  compensated_sum :: bool

section \<open>The amount-in-words converter\<close>

text \<open>\<open>int(round((n - entier) * 100))\<close>; the \<open>int\<close> of an integer is that integer.\<close>

definition centimes_of :: "pynum \<Rightarrow> int \<Rightarrow> exn + int" where
  "centimes_of n entier = py_round (num_mul (num_sub n (PyInt entier)) (PyInt 100))"

text \<open>The body of the \<open>try\<close> block of \<open>number_to_french_words\<close>.\<close>

definition french_words_try :: "env \<Rightarrow> pynum \<Rightarrow> exn + string" where
  "french_words_try E n =
    (case py_int n of
       Inl e \<Rightarrow> Inl e
     | Inr entier \<Rightarrow>
        (case centimes_of n entier of
           Inl e \<Rightarrow> Inl e
         | Inr centimes \<Rightarrow>
            (case num2words E entier of
               Inl e \<Rightarrow> Inl e
             | Inr w \<Rightarrow>
                (let words = w @ '' dinar'';
                     words = (if 1 < entier \<or> entier = 0 then words @ ''s'' else words)
                 in if 0 < centimes then
                      (case num2words E centimes of
                         Inl e \<Rightarrow> Inl e
                       | Inr c \<Rightarrow>
                          (let words = words @ '' et '' @ c @ '' centime''
                           in Inr (if 1 < centimes then words @ ''s'' else words)))
                    else Inr words))))"

text \<open>\<open>except Exception: return str(n)\<close>\<close>

definition number_to_french_words :: "env \<Rightarrow> pynum \<Rightarrow> string" where
  "number_to_french_words E n =
    (case french_words_try E n of Inl e \<Rightarrow> py_str E n | Inr words \<Rightarrow> words)"

section \<open>The request handler\<close>

text \<open>A list of results is the list of the values, or the first exception raised.\<close>

fun collect :: "(exn + 'a) list \<Rightarrow> exn + 'a list" where
  "collect [] = Inr []"
| "collect (Inl e # rs) = Inl e"
| "collect (Inr v # rs) = (case collect rs of Inl e \<Rightarrow> Inl e | Inr vs \<Rightarrow> Inr (v # vs))"

text \<open>\<open>p.quantite * (p.prixUnitaire or 0)\<close>\<close>

definition line_ht :: "Product \<Rightarrow> pynum" where
  "line_ht p = num_mul (PyFloat (quantite p)) (or_zero (prixUnitaire p))"

text \<open>\<open>p.quantite * (p.prixUnitaire or 0) * (p.tauxTVA or 0) / 100\<close>\<close>

definition line_tva :: "Product \<Rightarrow> exn + pynum" where
  "line_tva p = num_truediv (num_mul (line_ht p) (or_zero (tauxTVA p))) (PyInt 100)"

text \<open>The block under \<open>if not totals and request.products\<close>.\<close>

definition compute_totals :: "env \<Rightarrow> Product list \<Rightarrow> exn + Totals" where
  "compute_totals E ps =
    (let total_ht = py_sum (compensated_sum E) (map line_ht ps)
     in case collect (map line_tva ps) of
          Inl e \<Rightarrow> Inl e
        | Inr tvas \<Rightarrow>
           (let total_tva = py_sum (compensated_sum E) tvas;
                total_ttc = num_add total_ht total_tva
            in Inr \<lparr>totalHT = format_2f total_ht,
                     totalTVA = format_2f total_tva,
                     totalTTC = format_2f total_ttc\<rparr>))"

text \<open>
  \<open>totals = request.totals\<close>, replaced by the computed totals when it is \<open>None\<close> and the
  product list is not empty (a model instance is true, an empty list is false).
\<close>

definition resolve_totals :: "env \<Rightarrow> GeneratePdfRequest \<Rightarrow> exn + Totals option" where
  "resolve_totals E request =
    (case totals request of
       Some t \<Rightarrow> Inr (Some t)
     | None \<Rightarrow>
        if products request \<noteq> [] then
          (case compute_totals E (products request) of
             Inl e \<Rightarrow> Inl e
           | Inr t \<Rightarrow> Inr (Some t))
        else Inr None)"

text \<open>The value of \<open>total_ttc_words\<close>.\<close>

definition words_of_totals :: "env \<Rightarrow> Totals option \<Rightarrow> string" where
  "words_of_totals E ts =
    (case ts of
       Some t \<Rightarrow>
        (let total_ttc_value =
               (case py_float E (totalTTC t) of Inl e \<Rightarrow> PyInt 0 | Inr f \<Rightarrow> PyFloat f)
         in number_to_french_words E total_ttc_value)
     | None \<Rightarrow> ''z'' @ [CHR 0xE9] @ ''ro'')"

definition build_context :: "env \<Rightarrow> GeneratePdfRequest \<Rightarrow> Totals option \<Rightarrow> template_context" where
  "build_context E request ts =
    \<lparr>document_title = get_document_title (type request),
     company = companyInfo request,
     client = clientInfo request,
     document = documentInfo request,
     ctx_products = products request,
     ctx_totals = ts,
     ctx_type = type request,
     generated_date = now E,
     total_ttc_words = words_of_totals E ts,
     logo_url = logoUrl request\<rparr>"

text \<open>The specific template, or the generic one when loading the specific one raises.\<close>

definition select_template :: "env \<Rightarrow> GeneratePdfRequest \<Rightarrow> exn + template" where
  "select_template E request =
    (case get_template E (type request @ ''.html'') of
       Inl e \<Rightarrow> get_template E ''bon-livraison.html''
     | Inr t \<Rightarrow> Inr t)"

definition a4_css :: string where
  "a4_css = ''@page { size: A4; margin: 20mm 15mm 20mm 15mm; }''"

text \<open>
  The first part of the outer \<open>try\<close> block of \<open>generate_pdf\<close>, up to the dictionary
  \<open>context\<close>: the template and the context that are rendered.
\<close>

definition prepare :: "env \<Rightarrow> GeneratePdfRequest \<Rightarrow> exn + template \<times> template_context" where
  "prepare E request =
    (case select_template E request of
       Inl e \<Rightarrow> Inl e
     | Inr t \<Rightarrow>
        (case resolve_totals E request of
           Inl e \<Rightarrow> Inl e
         | Inr ts \<Rightarrow> Inr (t, build_context E request ts)))"

text \<open>The outer \<open>try\<close> block of \<open>generate_pdf\<close>.\<close>

definition generate_pdf_try :: "env \<Rightarrow> GeneratePdfRequest \<Rightarrow> exn + Response" where
  "generate_pdf_try E request =
    (case prepare E request of
       Inl e \<Rightarrow> Inl e
     | Inr (t, ctx) \<Rightarrow>
        (case render E t ctx of
           Inl e \<Rightarrow> Inl e
         | Inr html_content \<Rightarrow>
            (case write_pdf E html_content a4_css of
               Inl e \<Rightarrow> Inl e
             | Inr pdf_bytes \<Rightarrow>
                Inr \<lparr>content = pdf_bytes,
                     media_type = ''application/pdf'',
                     headers = [(''Content-Disposition'',
                       ''attachment; filename='' @ numero (documentInfo request)
                         @ ''.pdf'')]\<rparr>)))"

text \<open>\<open>except Exception as e: raise HTTPException(status_code=500, ...)\<close>\<close>

definition generate_pdf :: "env \<Rightarrow> GeneratePdfRequest \<Rightarrow> HTTPException + Response" where
  "generate_pdf E request =
    (case generate_pdf_try E request of
       Inl e \<Rightarrow> Inl \<lparr>status_code = 500, detail = ''Error generating PDF: '' @ exn_msg e\<rparr>
     | Inr response \<Rightarrow> Inr response)"

section \<open>The endpoint\<close>

text \<open>
  Modelled from the spec: the validation of the request body, which the web framework does
  and \<open>main.py\<close> only declares.
  The route \<open>POST /generate-pdf\<close> declares its body as a \<open>GeneratePdfRequest\<close>, so the
  framework validates the body against the model before it calls the handler. Of that
  validation the field \<open>type\<close> is modelled: its annotation \<open>Literal[...]\<close> admits the nine
  strings of \<open>document_types\<close>. A body that fails it is answered by the framework and the
  handler is not called.
\<close>

datatype endpoint_result = ValidationFailure | Handled "HTTPException + Response"

definition post_generate_pdf :: "env \<Rightarrow> GeneratePdfRequest \<Rightarrow> endpoint_result" where
  "post_generate_pdf E body =
    (if type body \<in> set document_types then Handled (generate_pdf E body)
     else ValidationFailure)"

section \<open>Sample values\<close>

text \<open>A small environment and a few requests, on which the theorems below are instantiated.\<close>

definition zero_word :: string where
  "zero_word = ''z'' @ [CHR 0xE9] @ ''ro''"

definition sample_num2words :: "int \<Rightarrow> exn + string" where
  "sample_num2words k =
    (if k = 0 then Inr zero_word
     else if k = 1 then Inr ''un''
     else if k = 2 then Inr ''deux''
     else if k = 50 then Inr ''cinquante''
     else Inl (Exn ''OverflowError'' ''abs(value) must be less than the maximum''))"

definition sample_py_float :: "string \<Rightarrow> exn + pyfloat" where
  "sample_py_float s =
    (if s = ''2.50'' then Inr (Fin (5 / 2))
     else if s = ''1.00'' then Inr (Fin 1)
     else if s = ''nan'' then Inr NaN
     else Inl (Exn ''ValueError'' (''could not convert string to float: '' @ s)))"

text \<open>
  \<open>str\<close> as Python prints integers, integral floats below \<open>10^16\<close>, the infinities and
  NaN; on the other floats the sample prints two decimals.
\<close>

definition sample_py_str :: "pynum \<Rightarrow> string" where
  "sample_py_str n =
    (case n of
       PyInt i \<Rightarrow> (if i < 0 then ''-'' @ digits (- i) else digits i)
     | PyFloat f \<Rightarrow>
        (case f of
           Fin r \<Rightarrow>
             if 0 \<le> r \<and> r < 10 ^ 16 \<and> of_int \<lfloor>r\<rfloor> = r then digits \<lfloor>r\<rfloor> @ ''.0''
             else format_2f_float f
         | PInf \<Rightarrow> ''inf''
         | NInf \<Rightarrow> ''-inf''
         | NaN \<Rightarrow> ''nan''))"

definition sample_get_template :: "string \<Rightarrow> exn + template" where
  "sample_get_template name =
    (if name = ''bon-livraison.html'' then Inr ''<h1>livraison</h1>''
     else if name = ''facture.html'' then Inr ''<h1>facture</h1>''
     else Inl (Exn ''TemplateNotFound'' name))"

definition sample_env :: env where
  "sample_env =
    \<lparr>num2words = sample_num2words,
     py_float = sample_py_float,
     py_str = sample_py_str,
     get_template = sample_get_template,
     render = (\<lambda>t ctx. Inr (t @ document_title ctx @ total_ttc_words ctx)),
     write_pdf = (\<lambda>html css. Inr (''%PDF-'' @ html)),
     now = ''03/11/2026 10:00'',
     compensated_sum = True\<rparr>"

text \<open>The same environment on an interpreter whose \<open>sum\<close> does not compensate.\<close>

definition sample_env_plain :: env where
  "sample_env_plain = sample_env\<lparr>compensated_sum := False\<rparr>"

definition sample_request :: GeneratePdfRequest where
  "sample_request =
    \<lparr>type = ''facture'',
     companyInfo = \<lparr>raisonSociale = ''ABC Company SARL'', adresse = ''Alger'',
       telephone = ''+213 555 123 456'', email = None, nif = ''1'', nis = ''2'', rc = ''3'',
       art = None\<rparr>,
     clientInfo = \<lparr>nom = ''Client XYZ'', client_adresse = ''Oran'', client_telephone = None,
       client_nif = None, client_nis = None, client_art = None\<rparr>,
     documentInfo = \<lparr>numero = ''FAC-2024-001'', date = ''2024-01-15'', bonCommande = None,
       dateLivraison = None, dateEcheance = None, conditions = None, modePaiement = None,
       facture = None, motifGeneral = None\<rparr>,
     products = [],
     totals = None,
     logoUrl = None\<rparr>"

definition sample_product :: "pyfloat \<Rightarrow> pyfloat option \<Rightarrow> pyfloat option \<Rightarrow> Product" where
  "sample_product q pu tva =
    \<lparr>designation = ''Produit A'', quantite = q, unite = ''piece'', prixUnitaire = pu,
     tauxTVA = tva, observation = None, motifRetour = None\<rparr>"

text \<open>
  Three lines with the quantities \<open>1.5\<close>, \<open>2.5\<close> and \<open>2\<close>, the unit prices \<open>207.89\<close>,
  \<open>113.84\<close> and \<open>119.33\<close> (each the nearest double) and the tax rate \<open>19\<close>.
\<close>

definition invoice_lines :: "Product list" where
  "invoice_lines =
    [sample_product (Fin (3 / 2)) (Some (Fin (1828619778386821 / 8796093022208))) (Some (Fin 19)),
     sample_product (Fin (5 / 2)) (Some (Fin (4005388918592635 / 35184372088832))) (Some (Fin 19)),
     sample_product (Fin 2) (Some (Fin (8397102242720645 / 70368744177664))) (Some (Fin 19))]"

text \<open>A line whose quantity and unit price are both the double \<open>2^600\<close>.\<close>

definition huge_product :: Product where
  "huge_product = sample_product (Fin (2 ^ 600)) (Some (Fin (2 ^ 600))) None"

definition env_no_templates :: env where
  "env_no_templates = sample_env\<lparr>get_template := (\<lambda>name. Inl (Exn ''TemplateNotFound'' name))\<rparr>"

definition env_render_fails :: env where
  "env_render_fails =
    sample_env\<lparr>render := (\<lambda>t ctx. Inl (Exn ''UndefinedError'' ''totals is undefined''))\<rparr>"

definition env_write_fails :: env where
  "env_write_fails = sample_env\<lparr>write_pdf := (\<lambda>html css. Inl (Exn ''OSError'' ''no fonts''))\<rparr>"

section \<open>The totals in the words of the specification\<close>

text \<open>
  The specification of the totals calculator, read in float arithmetic: an absent unit
  price or tax rate counts as zero, the before-tax total is the sum of
  \<open>quantity \<times> unitPrice\<close>, the tax total the sum of \<open>quantity \<times> unitPrice \<times> taxRate / 100\<close>,
  each sum taken the way the interpreter sums floats.
\<close>

definition absent_as_zero :: "pyfloat option \<Rightarrow> pyfloat" where
  "absent_as_zero v = (case v of None \<Rightarrow> Fin 0 | Some f \<Rightarrow> f)"

text \<open>
  The sum of a list of floats as the interpreter takes it: one addition after the other,
  or with the compensation of Neumaier.
\<close>

fun neumaier :: "pyfloat \<Rightarrow> pyfloat \<Rightarrow> pyfloat list \<Rightarrow> pyfloat" where
  "neumaier f c [] = add_compensation f c"
| "neumaier f c (x # xs) = neumaier (fadd f x) (compensate f c x) xs"

definition float_sum :: "bool \<Rightarrow> pyfloat list \<Rightarrow> pyfloat" where
  "float_sum compensated xs =
    (if compensated then
       (case xs of [] \<Rightarrow> Fin 0 | x # rest \<Rightarrow> neumaier (fadd (Fin 0) x) (Fin 0) rest)
     else foldl fadd (Fin 0) xs)"

definition div_100 :: "pyfloat \<Rightarrow> pyfloat" where
  "div_100 x = (case x of Fin a \<Rightarrow> round_double (a / 100) | _ \<Rightarrow> x)"

definition spec_line_ht :: "Product \<Rightarrow> pyfloat" where
  "spec_line_ht p = fmul (quantite p) (absent_as_zero (prixUnitaire p))"

definition spec_line_tva :: "Product \<Rightarrow> pyfloat" where
  "spec_line_tva p = div_100 (fmul (spec_line_ht p) (absent_as_zero (tauxTVA p)))"

definition spec_total_ht :: "bool \<Rightarrow> Product list \<Rightarrow> pyfloat" where
  "spec_total_ht compensated ps = float_sum compensated (map spec_line_ht ps)"

definition spec_total_tva :: "bool \<Rightarrow> Product list \<Rightarrow> pyfloat" where
  "spec_total_tva compensated ps = float_sum compensated (map spec_line_tva ps)"

section \<open>Properties of the document-type resolver\<close>

lemma titles_keys: "map fst titles = document_types"
  by (simp add: titles_def document_types_def)

lemma get_document_title_outside:
  assumes "doc_type \<notin> set document_types"
  shows "get_document_title doc_type = ''DOCUMENT''"
proof -
  from assms have "doc_type \<notin> fst ` set titles"
    by (simp add: titles_keys [symmetric])
  then have "map_of titles doc_type = None"
    by (simp add: map_of_eq_None_iff)
  then show ?thesis
    by (simp add: get_document_title_def)
qed

text \<open>
  Claim C6. Each of the nine recognised document types has its display title, the types
  \<open>facture-proforma\<close> and \<open>proforma\<close> have the same one, and every string outside the nine
  resolves to the fallback title \<open>DOCUMENT\<close>.
\<close>

theorem get_document_title_spec:
  "get_document_title ''bon-livraison'' = ''BON DE LIVRAISON''
   \<and> get_document_title ''bon-commande'' = ''BON DE COMMANDE''
   \<and> get_document_title ''facture'' = ''FACTURE''
   \<and> get_document_title ''facture-proforma'' = ''FACTURE PROFORMA''
   \<and> get_document_title ''proforma'' = ''FACTURE PROFORMA''
   \<and> get_document_title ''bon-retour'' = ''BON DE RETOUR''
   \<and> get_document_title ''facture-avoir'' = ''FACTURE AVOIR''
   \<and> get_document_title ''bon-versement'' = ''BON DE VERSEMENT''
   \<and> get_document_title ''bon-reception'' = ''BON DE R'' @ [CHR 0xC9] @ ''CEPTION''
   \<and> get_document_title ''facture-proforma'' = get_document_title ''proforma''
   \<and> length document_types = 9 \<and> distinct document_types
   \<and> (\<forall>doc_type. doc_type \<notin> set document_types
        \<longrightarrow> get_document_title doc_type = ''DOCUMENT'')"
  by (simp add: get_document_title_outside)
    (simp add: get_document_title_def titles_def document_types_def)

theorem get_document_title_spec_witness:
  "''devis'' \<notin> set document_types \<and> get_document_title ''devis'' = ''DOCUMENT''"
proof -
  have out: "''devis'' \<notin> set document_types"
    by (simp add: document_types_def)
  from get_document_title_spec have
    "\<forall>doc_type. doc_type \<notin> set document_types
      \<longrightarrow> get_document_title doc_type = ''DOCUMENT''"
    by blast
  with out show ?thesis by blast
qed

section \<open>Evaluating the rounding\<close>

lemma floor_rat_numeral: "\<lfloor>numeral a / numeral b :: rat\<rfloor> = numeral a div numeral b"
  by (metis floor_divide_of_int_eq of_int_numeral)

lemma round_half_even_of_int: "round_half_even (of_int z) = z"
  by (simp add: round_half_even_def)

lemma round_half_even_nearest:
  assumes "\<bar>x - of_int z\<bar> < 1 / 2"
  shows "round_half_even x = z"
proof -
  define f where "f = \<lfloor>x\<rfloor>"
  have lo: "of_int f \<le> x" and hi: "x < of_int f + 1"
    unfolding f_def by linarith+
  from assms have "x - of_int z < 1 / 2 \<and> - (x - of_int z) < 1 / 2"
    by (simp only: abs_less_iff)
  then have ub: "x - of_int z < 1 / 2" and lb: "of_int z - x < 1 / 2"
    by linarith+
  have "(of_int f :: rat) < of_int (z + 1)" using lo ub by simp
  then have 1: "f < z + 1" by (simp only: of_int_less_iff)
  have "(of_int z :: rat) < of_int (f + 2)" using hi lb by simp
  then have 2: "z < f + 2" by (simp only: of_int_less_iff)
  from 1 2 consider "f = z" | "f = z - 1" by linarith
  then show ?thesis
  proof cases
    case 1
    then have "x - of_int \<lfloor>x\<rfloor> < 1 / 2" using ub lb f_def by simp
    then show ?thesis using 1 f_def by (simp add: round_half_even_def Let_def)
  next
    case 2
    then have "1 / 2 < x - of_int \<lfloor>x\<rfloor>" using ub lb f_def by simp
    then show ?thesis using 2 f_def by (simp add: round_half_even_def Let_def)
  qed
qed

lemma round_double_pos:
  assumes "0 < x" and "max (floor_log2 x) (- 1022) = e" and "pow2 (e - 52) = q"
    and "round_half_even (x / q) = m" and "of_int m * q < pow2 1024"
  shows "round_double x = Fin (of_int m * q)"
  using assms by (simp add: round_double_def Let_def)

lemma round_double_100: "round_double 100 = Fin 100"
proof -
  have "floor_log2 100 = 6" by (simp add: floor_log2_def bitlen.simps)
  then show ?thesis
    by (intro round_double_pos [where e = 6 and q = "1 / 2 ^ 46" and m = "100 * 2 ^ 46", THEN trans])
      (simp_all add: pow2_def round_half_even_nearest)
qed

lemma round_double_eval:
  assumes "0 < x" and "floor_log2 x = e0" and "max e0 (- 1022) = e" and "pow2 (e - 52) = q"
    and "\<bar>x / q - of_int m\<bar> < 1 / 2" and "of_int m * q < pow2 1024"
    and "of_int m * q = y"
  shows "round_double x = Fin y"
  using assms round_half_even_nearest [of "x / q" m]
  by (simp add: round_double_def Let_def)

lemma ceiling_rat_numeral: "\<lceil>numeral a / numeral b :: rat\<rceil> = - (- numeral a div numeral b)"
proof -
  have "\<lfloor>- (numeral a / numeral b :: rat)\<rfloor> = \<lfloor>of_int (- numeral a) / of_int (numeral b) :: rat\<rfloor>"
    by simp
  also have "\<dots> = - numeral a div numeral b"
    by (rule floor_divide_of_int_eq)
  finally show ?thesis by (simp add: ceiling_def)
qed

lemma round_half_even_tie:
  "round_half_even (of_int f + 1 / 2) = (if even f then f else f + 1)"
proof -
  have "\<lfloor>(of_int f :: rat) + 1 / 2\<rfloor> = f" by linarith
  then show ?thesis by (simp add: round_half_even_def Let_def)
qed

lemma round_double_eval_pos:
  assumes "0 < x" and "floor_log2 x = e0" and "max e0 (- 1022) = e" and "pow2 (e - 52) = q"
    and "round_half_even (x / q) = m" and "of_int m * q < pow2 1024"
    and "of_int m * q = y"
  shows "round_double x = Fin y"
  using assms by (simp add: round_double_def Let_def)

lemma round_double_eval_neg:
  assumes "x < 0" and "floor_log2 (- x) = e0" and "max e0 (- 1022) = e"
    and "pow2 (e - 52) = q" and "round_half_even (- x / q) = m"
    and "of_int m * q < pow2 1024" and "- (of_int m * q) = y"
  shows "round_double x = Fin y"
  using assms by (simp add: round_double_def Let_def)

lemmas floor_log2_eval = floor_log2_def bitlen.simps floor_rat_numeral ceiling_rat_numeral

text \<open>Bounds: a number below \<open>2^1023\<close> in absolute value rounds to a finite double.\<close>

lemma pow2_pos: "0 < pow2 e"
  by (simp add: pow2_def)

lemma pow2_diff: "pow2 (e - int k) = pow2 e / 2 ^ k"
proof -
  consider (a) "int k \<le> e" | (b) "0 \<le> e" "e < int k" | (c) "e < 0" by linarith
  then show ?thesis
  proof cases
    case a
    then have "nat e = nat (e - int k) + k" by linarith
    then have "(2::rat) ^ nat e = 2 ^ nat (e - int k) * 2 ^ k"
      by (simp only: power_add)
    with a show ?thesis by (simp add: pow2_def)
  next
    case b
    then have "k = nat e + nat (int k - e)" by linarith
    then have "(2::rat) ^ k = 2 ^ nat e * 2 ^ nat (int k - e)"
      by (simp only: power_add [symmetric])
    with b show ?thesis by (simp add: pow2_def)
  next
    case c
    then have "nat (int k - e) = nat (- e) + k" by linarith
    then have "(2::rat) ^ nat (int k - e) = 2 ^ nat (- e) * 2 ^ k"
      by (simp only: power_add)
    with c show ?thesis by (simp add: pow2_def)
  qed
qed

lemma pow2_diff_52: "pow2 (e - 52) = pow2 e / 2 ^ 52"
  using pow2_diff [of e 52] by simp

lemma pow2_1024: "pow2 1024 = 2 * pow2 1023"
  by (simp add: pow2_def)



lemma bitlen_bounds:
  "1 \<le> n \<Longrightarrow> 1 \<le> bitlen n \<and> 2 ^ nat (bitlen n - 1) \<le> n \<and> n < 2 ^ nat (bitlen n)"
proof (induction n rule: bitlen.induct)
  case (1 n)
  show ?case
  proof (cases "n = 1")
    case True
    then show ?thesis
      by (simp add: bitlen.simps [of 1] bitlen.simps [of 0])
  next
    case False
    with 1(2) have n2: "2 \<le> n" by simp
    then have h: "1 \<le> n div 2" by simp
    from 1(2) have step: "bitlen n = bitlen (n div 2) + 1"
      by (subst bitlen.simps) simp
    from 1(1) [OF _ h] 1(2)
    have ih: "1 \<le> bitlen (n div 2)" "2 ^ nat (bitlen (n div 2) - 1) \<le> n div 2"
      "n div 2 < 2 ^ nat (bitlen (n div 2))"
      by simp_all
    define b where "b = nat (bitlen (n div 2) - 1)"
    from ih(1) have nb: "nat (bitlen (n div 2)) = Suc b" by (simp add: b_def)
    have lo: "(2::int) ^ Suc b \<le> n"
      using ih(2) unfolding b_def [symmetric] by simp
    have hi: "n < 2 ^ Suc (Suc b)"
      using ih(3) unfolding nb by simp
    have nb2: "nat (bitlen (n div 2) + 1) = Suc (Suc b)"
      unfolding b_def using ih(1) by linarith
    have "1 \<le> bitlen (n div 2) + 1" using ih(1) by simp
    moreover have "2 ^ nat (bitlen (n div 2) + 1 - 1) \<le> n"
      using lo by (simp only: add_diff_cancel_right' nb)
    moreover have "n < 2 ^ nat (bitlen (n div 2) + 1)"
      using hi by (simp only: nb2)
    ultimately show ?thesis
      unfolding step by blast
  qed
qed

lemma floor_log2_le:
  assumes "0 < a"
  shows "pow2 (floor_log2 a) \<le> a"
proof (cases "1 \<le> a")
  case True
  then have "1 \<le> \<lfloor>a\<rfloor>" by simp
  from bitlen_bounds [OF this]
  have b1: "1 \<le> bitlen \<lfloor>a\<rfloor>" and lo: "2 ^ nat (bitlen \<lfloor>a\<rfloor> - 1) \<le> \<lfloor>a\<rfloor>"
    by simp_all
  from lo have "(of_int (2 ^ nat (bitlen \<lfloor>a\<rfloor> - 1)) :: rat) \<le> of_int \<lfloor>a\<rfloor>"
    by (simp only: of_int_le_iff)
  also have "\<dots> \<le> a" by simp
  finally show ?thesis
    using True b1 by (simp add: floor_log2_def pow2_def)
next
  case False
  with assms have "1 < 1 / a" by simp
  then have "2 \<le> \<lceil>1 / a\<rceil>" by linarith
  then have k1: "1 \<le> \<lceil>1 / a\<rceil> - 1" by simp
  from bitlen_bounds [OF this]
  have b1: "1 \<le> bitlen (\<lceil>1 / a\<rceil> - 1)"
    and hi: "\<lceil>1 / a\<rceil> - 1 < 2 ^ nat (bitlen (\<lceil>1 / a\<rceil> - 1))"
    by simp_all
  define b where "b = nat (bitlen (\<lceil>1 / a\<rceil> - 1))"
  from hi have "\<lceil>1 / a\<rceil> \<le> 2 ^ b" by (simp add: b_def)
  then have "(of_int \<lceil>1 / a\<rceil> :: rat) \<le> of_int (2 ^ b)"
    by (simp only: of_int_le_iff)
  moreover have "1 / a \<le> of_int \<lceil>1 / a\<rceil>" by (rule le_of_int_ceiling)
  ultimately have "1 / a \<le> of_int (2 ^ b)" by (rule order_trans [rotated])
  then have "1 / a \<le> 2 ^ b" by simp
  with assms have "1 / 2 ^ b \<le> a"
    by (simp add: field_simps)
  then show ?thesis
    using False b1 by (simp add: floor_log2_def pow2_def b_def)
qed



lemma round_half_even_error: "\<bar>of_int (round_half_even t) - t\<bar> \<le> 1 / 2"
proof -
  have lo: "of_int \<lfloor>t\<rfloor> \<le> t" and hi: "t < of_int \<lfloor>t\<rfloor> + 1" by linarith+
  consider (a) "t - of_int \<lfloor>t\<rfloor> < 1 / 2" | (b) "1 / 2 < t - of_int \<lfloor>t\<rfloor>"
    | (c) "t - of_int \<lfloor>t\<rfloor> = 1 / 2" by linarith
  then show ?thesis
  proof cases
    case a
    then have "round_half_even t = \<lfloor>t\<rfloor>"
      by (simp add: round_half_even_def Let_def)
    with lo a show ?thesis unfolding abs_le_iff by linarith
  next
    case b
    then have "round_half_even t = \<lfloor>t\<rfloor> + 1"
      by (simp add: round_half_even_def Let_def)
    with hi b show ?thesis unfolding abs_le_iff by linarith
  next
    case c
    then have "round_half_even t = \<lfloor>t\<rfloor> \<or> round_half_even t = \<lfloor>t\<rfloor> + 1"
      by (simp add: round_half_even_def Let_def)
    with c show ?thesis unfolding abs_le_iff by (elim disjE) linarith+
  qed
qed



lemma round_half_even_nonneg: "0 \<le> x \<Longrightarrow> 0 \<le> round_half_even x"
proof -
  assume "0 \<le> x"
  then have "0 \<le> \<lfloor>x\<rfloor>" by simp
  then show ?thesis by (simp add: round_half_even_def Let_def)
qed

lemma round_double_finite:
  assumes "\<bar>x\<bar> < pow2 1023"
  shows "\<exists>y. round_double x = Fin y \<and> \<bar>y\<bar> \<le> 2 * \<bar>x\<bar> + 1"
proof (cases "x = 0")
  case True
  then show ?thesis by (simp add: round_double_def)
next
  case False
  define a where "a = \<bar>x\<bar>"
  define e where "e = max (floor_log2 a) (- 1022)"
  define q where "q = pow2 (e - 52)"
  define m where "m = round_half_even (a / q)"
  define y where "y = of_int m * q"
  from False have a_pos: "0 < a" by (simp add: a_def)
  have q_pos: "0 < q" unfolding q_def by (rule pow2_pos)
  have q_le: "q \<le> a / 2 ^ 52 + 1"
  proof (cases "e = floor_log2 a")
    case True
    have "pow2 (floor_log2 a) / 2 ^ 52 \<le> a / 2 ^ 52"
      using floor_log2_le [OF a_pos] by (simp add: divide_right_mono)
    then show ?thesis
      unfolding q_def True pow2_diff_52 by simp
  next
    case False
    then have "e = - 1022" unfolding e_def by linarith
    then have "q = 1 / 2 ^ 1074" by (simp add: q_def pow2_def)
    also have "\<dots> \<le> 1" by simp
    finally show ?thesis using a_pos by (simp add: add_increasing)
  qed
  have "0 \<le> a / q" using a_pos q_pos by simp
  then have m_nonneg: "0 \<le> m" unfolding m_def by (rule round_half_even_nonneg)
  then have y_nonneg: "0 \<le> y" using q_pos by (simp add: y_def)
  have "\<bar>of_int m - a / q\<bar> \<le> 1 / 2"
    unfolding m_def by (rule round_half_even_error)
  then have "\<bar>of_int m - a / q\<bar> * q \<le> 1 / 2 * q"
    using q_pos by (intro mult_right_mono) simp_all
  moreover have "\<bar>of_int m - a / q\<bar> * q = \<bar>y - a\<bar>"
  proof -
    have "y - a = (of_int m - a / q) * q"
      using q_pos by (simp add: y_def left_diff_distrib)
    then have "\<bar>y - a\<bar> = \<bar>of_int m - a / q\<bar> * \<bar>q\<bar>"
      by (simp only: abs_mult)
    also have "\<bar>q\<bar> = q" using q_pos by simp
    finally show ?thesis by simp
  qed
  ultimately have err: "\<bar>y - a\<bar> \<le> q / 2" by simp
  then have y_le: "y \<le> a + q / 2" unfolding abs_le_iff by linarith
  have half: "a / 2 ^ 52 \<le> a" using a_pos by (simp add: field_simps)
  from y_le q_le half a_pos have y_le2: "y \<le> 2 * a + 1" by linarith
  have "pow2 1023 / 2 ^ 53 + 1 / 2 \<le> pow2 1023" by (simp add: pow2_def)
  moreover have "a / 2 ^ 53 < pow2 1023 / 2 ^ 53"
    using assms by (simp add: a_def divide_strict_right_mono)
  moreover have "q / 2 \<le> a / 2 ^ 53 + 1 / 2" using q_le by simp
  ultimately have "y < pow2 1024"
    using y_le assms unfolding pow2_1024 a_def by linarith
  then have "round_double x = Fin (if 0 < x then y else - y)"
    using False
    by (simp add: round_double_def Let_def a_def [symmetric] e_def [symmetric]
        q_def [symmetric] m_def [symmetric] y_def [symmetric])
  with y_nonneg y_le2 show ?thesis
    by (auto simp add: a_def)
qed

lemma to_float_100: "to_float (PyInt 100) = Fin 100"
  by (simp add: to_float_def round_double_100)

lemma round_double_0: "round_double 0 = Fin 0"
  by (simp add: round_double_def)

lemma to_float_0: "to_float (PyInt 0) = Fin 0"
  by (simp add: to_float_def round_double_def)

lemma to_float_PyFloat: "to_float (PyFloat f) = f"
  by (simp add: to_float_def)

section \<open>The computed totals\<close>

lemma to_float_or_zero: "to_float (or_zero v) = absent_as_zero v"
  by (simp add: or_zero_def absent_as_zero_def to_float_0 to_float_PyFloat split: option.splits)

lemma num_mul_float: "num_mul (PyFloat q) n = PyFloat (fmul q (to_float n))"
  by (cases n) (simp_all add: num_mul_def to_float_def)

lemma line_ht_spec: "line_ht p = PyFloat (spec_line_ht p)"
proof -
  show ?thesis
    by (simp add: line_ht_def spec_line_ht_def num_mul_float to_float_or_zero)
qed

lemma line_tva_spec: "line_tva p = Inr (PyFloat (spec_line_tva p))"
proof -
  show ?thesis
    by (simp add: line_tva_def line_ht_spec spec_line_tva_def num_truediv_def to_float_100
        to_float_or_zero num_mul_float to_float_PyFloat div_100_def inf_of_sign_def
        split: pyfloat.splits)
qed

lemma collect_Inr: "collect (map (\<lambda>x. Inr (f x)) xs) = Inr (map f xs)"
  by (induction xs) simp_all

lemma foldl_num_add_float:
  "foldl num_add (PyFloat a) (map PyFloat xs) = PyFloat (foldl fadd a xs)"
  by (induction xs arbitrary: a) (simp_all add: num_add_def to_float_def)

lemma sum_float_block_floats:
  "sum_float_block f c (map PyFloat xs) = PyFloat (neumaier f c xs)"
  by (induction xs arbitrary: f c) simp_all

lemma float_sum_single: "float_sum b [x] = fadd (Fin 0) x"
  by (simp add: float_sum_def add_compensation_def)

lemma py_sum_floats:
  assumes "xs \<noteq> []"
  shows "py_sum b (map PyFloat xs) = PyFloat (float_sum b xs)"
proof (cases xs)
  case Nil
  with assms show ?thesis by simp
next
  case (Cons x rest)
  have "num_add (PyInt 0) (PyFloat x) = PyFloat (fadd (Fin 0) x)"
    by (simp add: num_add_def to_float_0 to_float_PyFloat)
  then show ?thesis
    by (simp add: Cons py_sum_def float_sum_def foldl_num_add_float sum_float_block_floats
        to_float_0)
qed

lemma compute_totals_spec:
  assumes "ps \<noteq> []"
  shows "compute_totals E ps =
    Inr \<lparr>totalHT = format_2f_float (spec_total_ht (compensated_sum E) ps),
         totalTVA = format_2f_float (spec_total_tva (compensated_sum E) ps),
         totalTTC = format_2f_float
           (fadd (spec_total_ht (compensated_sum E) ps)
              (spec_total_tva (compensated_sum E) ps))\<rparr>"
proof -
  have ht: "map line_ht ps = map PyFloat (map spec_line_ht ps)"
    by (simp add: line_ht_spec)
  have tva: "map line_tva ps = map (\<lambda>p. Inr (PyFloat (spec_line_tva p))) ps"
    by (simp add: line_tva_spec)
  have c: "collect (map line_tva ps) = Inr (map PyFloat (map spec_line_tva ps))"
    unfolding tva by (simp add: collect_Inr)
  from assms have n1: "map spec_line_ht ps \<noteq> []" and n2: "map spec_line_tva ps \<noteq> []"
    by simp_all
  have s1: "py_sum b (map PyFloat (map spec_line_ht ps)) = PyFloat (spec_total_ht b ps)"
    for b
    unfolding spec_total_ht_def using n1 by (rule py_sum_floats)
  have s2: "py_sum b (map PyFloat (map spec_line_tva ps)) = PyFloat (spec_total_tva b ps)"
    for b
    unfolding spec_total_tva_def using n2 by (rule py_sum_floats)
  show ?thesis
    by (simp add: compute_totals_def ht c s1 s2 Let_def format_2f_def num_add_def
        to_float_PyFloat del: map_map)
qed

lemma resolve_totals_total: "\<exists>ts. resolve_totals E request = Inr ts"
  by (cases "totals request") (simp_all add: resolve_totals_def compute_totals_spec)

lemma prepare_fails_only_on_template:
  assumes "prepare E request = Inl e"
  shows "select_template E request = Inl e"
proof -
  obtain ts where "resolve_totals E request = Inr ts"
    using resolve_totals_total by blast
  with assms show ?thesis
    by (simp add: prepare_def split: sum.splits)
qed

section \<open>Properties of the request handler\<close>

lemma select_template_sample:
  "select_template sample_env sample_request = Inr ''<h1>facture</h1>''"
  by (simp add: select_template_def sample_env_def sample_request_def sample_get_template_def)

text \<open>
  Claim C3. When the request supplies Totals, no totals are computed: the value handed
  on is the supplied one, whatever the product list is, and the context that is rendered
  carries exactly the supplied three strings.
\<close>

theorem supplied_totals_verbatim:
  assumes "totals request = Some t"
  shows "resolve_totals E request = Inr (Some t)
    \<and> resolve_totals E (request\<lparr>products := ps\<rparr>) = Inr (Some t)
    \<and> prepare E request =
        (case select_template E request of
           Inl e \<Rightarrow> Inl e
         | Inr tpl \<Rightarrow> Inr (tpl, build_context E request (Some t)))
    \<and> ctx_totals (build_context E request (Some t)) = Some t
    \<and> (\<forall>tpl ctx. prepare E request = Inr (tpl, ctx) \<longrightarrow>
          ctx_totals ctx = Some \<lparr>totalHT = totalHT t, totalTVA = totalTVA t,
            totalTTC = totalTTC t\<rparr>)"
  using assms
  by (auto simp add: resolve_totals_def prepare_def build_context_def split: sum.splits)

theorem supplied_totals_verbatim_witness:
  "prepare sample_env
     (sample_request\<lparr>products := [sample_product (Fin 10) (Some (Fin 3)) None],
        totals := Some \<lparr>totalHT = ''7.00'', totalTVA = ''abc'', totalTTC = ''1.00''\<rparr>\<rparr>)
   = Inr (''<h1>facture</h1>'',
       build_context sample_env
         (sample_request\<lparr>products := [sample_product (Fin 10) (Some (Fin 3)) None],
            totals := Some \<lparr>totalHT = ''7.00'', totalTVA = ''abc'', totalTTC = ''1.00''\<rparr>\<rparr>)
         (Some \<lparr>totalHT = ''7.00'', totalTVA = ''abc'', totalTTC = ''1.00''\<rparr>))"
proof -
  let ?t = "\<lparr>totalHT = ''7.00'', totalTVA = ''abc'', totalTTC = ''1.00''\<rparr>"
  let ?r = "sample_request\<lparr>products := [sample_product (Fin 10) (Some (Fin 3)) None],
    totals := Some ?t\<rparr>"
  have sup: "totals ?r = Some ?t" by simp
  have sel: "select_template sample_env ?r = Inr ''<h1>facture</h1>''"
    by (simp add: select_template_def sample_env_def sample_request_def
        sample_get_template_def)
  from supplied_totals_verbatim [OF sup, where E = sample_env] sel show ?thesis
    by simp
qed

text \<open>
  Claim C2, as the code has it. With an empty product list and no supplied Totals the
  handler computes no totals: the context carries \<open>None\<close> for them, and the words-amount is
  the fixed word for zero, which does not go through the converter.
\<close>

theorem empty_products_no_totals:
  assumes "products request = []" and "totals request = None"
  shows "resolve_totals E request = Inr None
    \<and> prepare E request =
        (case select_template E request of
           Inl e \<Rightarrow> Inl e
         | Inr tpl \<Rightarrow> Inr (tpl, build_context E request None))
    \<and> ctx_totals (build_context E request None) = None
    \<and> total_ttc_words (build_context E request None) = ''z'' @ [CHR 0xE9] @ ''ro''"
  using assms
  by (auto simp add: resolve_totals_def prepare_def build_context_def words_of_totals_def
      split: sum.splits)

theorem empty_products_no_totals_witness:
  "prepare sample_env sample_request
     = Inr (''<h1>facture</h1>'', build_context sample_env sample_request None)
   \<and> ctx_totals (build_context sample_env sample_request None) = None"
proof -
  have p: "products sample_request = []" and t: "totals sample_request = None"
    by (simp_all add: sample_request_def)
  from empty_products_no_totals [OF p t, where E = sample_env] select_template_sample
  show ?thesis by simp
qed

text \<open>
  The claim as stated fails on the sample request: the totals of the rendered context
  are not the three strings \<open>0.00\<close>, and the words-amount is not what the converter gives
  for zero.
\<close>

theorem empty_products_counterexample:
  "prepare sample_env sample_request
     = Inr (''<h1>facture</h1>'', build_context sample_env sample_request None)
   \<and> ctx_totals (build_context sample_env sample_request None)
     \<noteq> Some \<lparr>totalHT = ''0.00'', totalTVA = ''0.00'', totalTTC = ''0.00''\<rparr>
   \<and> total_ttc_words (build_context sample_env sample_request None)
     \<noteq> number_to_french_words sample_env (PyInt 0)"
proof -
  have "resolve_totals sample_env sample_request = Inr None"
    by (simp add: resolve_totals_def sample_request_def)
  then have "prepare sample_env sample_request
      = Inr (''<h1>facture</h1>'', build_context sample_env sample_request None)"
    by (simp add: prepare_def select_template_sample)
  moreover have "ctx_totals (build_context sample_env sample_request None)
      \<noteq> Some \<lparr>totalHT = ''0.00'', totalTVA = ''0.00'', totalTTC = ''0.00''\<rparr>"
    by (simp add: build_context_def)
  moreover have "number_to_french_words sample_env (PyInt 0) = zero_word @ '' dinars''"
    by (simp add: number_to_french_words_def french_words_try_def py_int_def py_round_def
        centimes_of_def num_sub_def num_mul_def sample_env_def sample_num2words_def)
  then have "total_ttc_words (build_context sample_env sample_request None)
      \<noteq> number_to_french_words sample_env (PyInt 0)"
    by (simp add: build_context_def words_of_totals_def zero_word_def)
  ultimately show ?thesis by blast
qed

text \<open>
  Claim C7. A body whose \<open>type\<close> is outside the nine values is rejected by the validation
  of the model; the handler is not called, so the answer does not depend on the templates,
  on the renderers or on any other part of the environment.
\<close>

theorem unknown_type_rejected:
  assumes "type body \<notin> set document_types"
  shows "post_generate_pdf E body = ValidationFailure"
  using assms by (simp add: post_generate_pdf_def)

theorem unknown_type_rejected_witness:
  "post_generate_pdf sample_env (sample_request\<lparr>type := ''devis''\<rparr>) = ValidationFailure"
proof -
  have "type (sample_request\<lparr>type := ''devis''\<rparr>) \<notin> set document_types"
    by (simp add: document_types_def)
  from unknown_type_rejected [OF this] show ?thesis .
qed

section \<open>Failures of the words conversion and of the handler\<close>

text \<open>
  Claim C5. Whenever the \<open>try\<close> block of the converter raises (the conversion to an
  integer fails, or \<open>num2words\<close> fails), the converter returns \<open>str(n)\<close>; and the part of the
  handler that computes the words-amount fails only when no template can be loaded, never
  because of the words.
\<close>

theorem words_failure_falls_back:
  "(french_words_try E n = Inl e \<longrightarrow> number_to_french_words E n = py_str E n)
   \<and> (py_int n = Inl e \<longrightarrow> number_to_french_words E n = py_str E n)
   \<and> (py_int n = Inr k \<and> num2words E k = Inl e \<longrightarrow>
        number_to_french_words E n = py_str E n)
   \<and> (prepare E request = Inl e \<longrightarrow> select_template E request = Inl e)"
  by (auto simp add: number_to_french_words_def french_words_try_def
      prepare_fails_only_on_template split: sum.splits)

theorem words_failure_falls_back_witness:
  "number_to_french_words sample_env (PyFloat NaN) = ''nan''
   \<and> number_to_french_words sample_env (PyFloat (Fin 7)) = ''7.0''"
proof -
  let ?e = "Exn ''ValueError'' ''cannot convert float NaN to integer''"
  let ?o = "Exn ''OverflowError'' ''abs(value) must be less than the maximum''"
  have 1: "py_int (PyFloat NaN) = Inl ?e"
    by (simp add: py_int_def)
  have 2: "py_int (PyFloat (Fin 7)) = Inr 7 \<and> num2words sample_env 7 = Inl ?o"
    by (simp add: py_int_def sample_env_def sample_num2words_def)
  have s1: "py_str sample_env (PyFloat NaN) = ''nan''"
    by (simp add: sample_env_def sample_py_str_def)
  have s2: "py_str sample_env (PyFloat (Fin 7)) = ''7.0''"
    by (simp add: sample_env_def sample_py_str_def digits.simps digit_char_def)
  from words_failure_falls_back [of sample_env "PyFloat NaN" ?e] 1 s1
  have a: "number_to_french_words sample_env (PyFloat NaN) = ''nan''" by simp
  from words_failure_falls_back [of sample_env "PyFloat (Fin 7)" ?o 7] 2 s2
  have b: "number_to_french_words sample_env (PyFloat (Fin 7)) = ''7.0''" by simp
  from a b show ?thesis by blast
qed

lemma french_words_zero:
  "number_to_french_words E (PyInt 0) =
    (case num2words E 0 of Inl x \<Rightarrow> py_str E (PyInt 0) | Inr w \<Rightarrow> w @ '' dinars'')"
  by (simp add: number_to_french_words_def french_words_try_def py_int_def py_round_def
      centimes_of_def num_sub_def num_mul_def split: sum.splits)

text \<open>
  Claim C10. When the supplied \<open>totalTTC\<close> is not parseable as a number, the words-amount
  is the one of the integer \<open>0\<close>: the words of \<open>num2words\<close> for zero followed by
  \<open>dinars\<close>, neither the supplied string nor its string form.
\<close>

theorem unparseable_total_words_of_zero:
  assumes "py_float E (totalTTC t) = Inl e"
  shows "words_of_totals E (Some t) = number_to_french_words E (PyInt 0)
    \<and> number_to_french_words E (PyInt 0) =
        (case num2words E 0 of Inl x \<Rightarrow> py_str E (PyInt 0) | Inr w \<Rightarrow> w @ '' dinars'')
    \<and> (\<forall>request tpl ctx. totals request = Some t \<and> prepare E request = Inr (tpl, ctx)
          \<longrightarrow> total_ttc_words ctx = number_to_french_words E (PyInt 0))"
proof -
  from assms have w: "words_of_totals E (Some t) = number_to_french_words E (PyInt 0)"
    by (simp add: words_of_totals_def)
  have "total_ttc_words ctx = number_to_french_words E (PyInt 0)"
    if "totals request = Some t" and "prepare E request = Inr (tpl, ctx)"
    for request tpl ctx
    using that w
    by (auto simp add: prepare_def resolve_totals_def build_context_def split: sum.splits)
  with w french_words_zero show ?thesis by blast
qed

theorem unparseable_total_words_of_zero_witness:
  "words_of_totals sample_env
     (Some \<lparr>totalHT = ''12,5'', totalTVA = ''0'', totalTTC = ''douze''\<rparr>)
   = ''z'' @ [CHR 0xE9] @ ''ro dinars''"
proof -
  let ?t = "\<lparr>totalHT = ''12,5'', totalTVA = ''0'', totalTTC = ''douze''\<rparr>"
  have "py_float sample_env (totalTTC ?t)
      = Inl (Exn ''ValueError'' (''could not convert string to float: '' @ ''douze''))"
    by (simp add: sample_env_def sample_py_float_def)
  from unparseable_total_words_of_zero [OF this] show ?thesis
    by (simp add: sample_env_def sample_num2words_def zero_word_def)
qed

text \<open>
  Claim C8. Every failure of the handler is an HTTP error 500 whose detail is
  \<open>Error generating PDF: \<close> followed by the text of the exception raised, whichever stage
  raised it: loading the template, rendering the markup or rendering the pages (computing
  the totals and the words raises nothing). A response is returned only when all stages
  succeeded, and its content is then the whole output of the page renderer.
\<close>

theorem handler_failure_is_error_500:
  "(generate_pdf E request = Inl h \<longrightarrow>
      status_code h = 500
      \<and> (\<exists>e. generate_pdf_try E request = Inl e
            \<and> detail h = ''Error generating PDF: '' @ exn_msg e))
   \<and> (select_template E request = Inl e \<longrightarrow>
        generate_pdf E request
          = Inl \<lparr>status_code = 500, detail = ''Error generating PDF: '' @ exn_msg e\<rparr>)
   \<and> (prepare E request = Inr (tpl, ctx) \<and> render E tpl ctx = Inl e \<longrightarrow>
        generate_pdf E request
          = Inl \<lparr>status_code = 500, detail = ''Error generating PDF: '' @ exn_msg e\<rparr>)
   \<and> (prepare E request = Inr (tpl, ctx) \<and> render E tpl ctx = Inr html
        \<and> write_pdf E html a4_css = Inl e \<longrightarrow>
        generate_pdf E request
          = Inl \<lparr>status_code = 500, detail = ''Error generating PDF: '' @ exn_msg e\<rparr>)
   \<and> (generate_pdf E request = Inr r \<longrightarrow>
        (\<exists>tpl ctx html. prepare E request = Inr (tpl, ctx) \<and> render E tpl ctx = Inr html
           \<and> write_pdf E html a4_css = Inr (content r)))
   \<and> (\<exists>ts. resolve_totals E request = Inr ts)"
proof -
  have "prepare E request = Inl e" if "select_template E request = Inl e"
    using that by (simp add: prepare_def)
  then show ?thesis
    using resolve_totals_total [of E request]
    by (auto simp add: generate_pdf_def generate_pdf_try_def split: sum.splits prod.splits)
qed

theorem handler_failure_is_error_500_witness:
  "generate_pdf env_no_templates sample_request
     = Inl \<lparr>status_code = 500, detail = ''Error generating PDF: bon-livraison.html''\<rparr>
   \<and> generate_pdf env_render_fails sample_request
     = Inl \<lparr>status_code = 500, detail = ''Error generating PDF: totals is undefined''\<rparr>
   \<and> generate_pdf env_write_fails sample_request
     = Inl \<lparr>status_code = 500, detail = ''Error generating PDF: no fonts''\<rparr>"
proof -
  have rt: "resolve_totals E sample_request = Inr None" for E
    by (simp add: resolve_totals_def sample_request_def)
  have ty: "type sample_request = ''facture''"
    by (simp add: sample_request_def)
  have "select_template env_no_templates sample_request
      = Inl (Exn ''TemplateNotFound'' ''bon-livraison.html'')"
    by (simp add: select_template_def env_no_templates_def)
  with handler_failure_is_error_500
    [of env_no_templates sample_request _ "Exn ''TemplateNotFound'' ''bon-livraison.html''"]
  have a: "generate_pdf env_no_templates sample_request
      = Inl \<lparr>status_code = 500, detail = ''Error generating PDF: bon-livraison.html''\<rparr>"
    by simp
  let ?c1 = "build_context env_render_fails sample_request None"
  have "prepare env_render_fails sample_request = Inr (''<h1>facture</h1>'', ?c1)
      \<and> render env_render_fails ''<h1>facture</h1>'' ?c1
        = Inl (Exn ''UndefinedError'' ''totals is undefined'')"
    by (simp add: prepare_def rt select_template_def ty env_render_fails_def sample_env_def
        sample_get_template_def)
  with handler_failure_is_error_500
    [of env_render_fails sample_request _ "Exn ''UndefinedError'' ''totals is undefined''"
      "''<h1>facture</h1>''" ?c1]
  have b: "generate_pdf env_render_fails sample_request
      = Inl \<lparr>status_code = 500, detail = ''Error generating PDF: totals is undefined''\<rparr>"
    by simp
  let ?c2 = "build_context env_write_fails sample_request None"
  let ?html = "''<h1>facture</h1>'' @ document_title ?c2 @ total_ttc_words ?c2"
  have "prepare env_write_fails sample_request = Inr (''<h1>facture</h1>'', ?c2)
      \<and> render env_write_fails ''<h1>facture</h1>'' ?c2 = Inr ?html
      \<and> write_pdf env_write_fails ?html a4_css = Inl (Exn ''OSError'' ''no fonts'')"
    by (simp add: prepare_def rt select_template_def ty env_write_fails_def sample_env_def
        sample_get_template_def)
  with handler_failure_is_error_500
    [of env_write_fails sample_request _ "Exn ''OSError'' ''no fonts''"
      "''<h1>facture</h1>''" ?c2 ?html]
  have c: "generate_pdf env_write_fails sample_request
      = Inl \<lparr>status_code = 500, detail = ''Error generating PDF: no fonts''\<rparr>"
    by simp
  from a b c show ?thesis by blast
qed

section \<open>The scenario of one line\<close>

text \<open>
  The doubles that arise for quantity \<open>10\<close>, unit price \<open>100.5\<close> and tax rate \<open>19\<close>: the
  products \<open>1005\<close> and \<open>19095\<close> are exact, \<open>19095 / 100\<close> rounds to the double nearest to
  \<open>190.95\<close>, and adding it to \<open>1005\<close> rounds once more.
\<close>

lemma round_double_1005: "round_double 1005 = Fin 1005"
  by (rule round_double_eval
      [where ?e0.0 = 9 and e = 9 and q = "1 / 2 ^ 43" and m = "1005 * 2 ^ 43"])
    (simp_all add: floor_log2_eval pow2_def)

lemma round_double_19095: "round_double 19095 = Fin 19095"
  by (rule round_double_eval
      [where ?e0.0 = 14 and e = 14 and q = "1 / 2 ^ 38" and m = "19095 * 2 ^ 38"])
    (simp_all add: floor_log2_eval pow2_def)

lemma round_double_tva:
  "round_double (3819 / 20) = Fin (3359227925181235 / 17592186044416)"
  by (rule round_double_eval
      [where ?e0.0 = 7 and e = 7 and q = "1 / 2 ^ 45" and m = 6718455850362470])
    (simp_all add: floor_log2_eval pow2_def)

lemma round_double_tva_again:
  "round_double (3359227925181235 / 17592186044416)
    = Fin (3359227925181235 / 17592186044416)"
  by (rule round_double_eval
      [where ?e0.0 = 7 and e = 7 and q = "1 / 2 ^ 45" and m = 6718455850362470])
    (simp_all add: floor_log2_eval pow2_def)

lemma round_double_ttc:
  "round_double (21039374899819315 / 17592186044416)
    = Fin (5259843724954829 / 4398046511104)"
  by (rule round_double_eval
      [where ?e0.0 = 10 and e = 10 and q = "1 / 2 ^ 42" and m = 5259843724954829])
    (simp_all add: floor_log2_eval pow2_def)

lemma format_1005: "format_2f_float (Fin 1005) = ''1005.00''"
proof -
  have "round_half_even (1005 * 100) = 100500"
    using round_half_even_of_int [of 100500] by simp
  then show ?thesis
    by (simp add: format_2f_float_def digits.simps digit_char_def)
qed

lemma format_tva: "format_2f_float (Fin (3359227925181235 / 17592186044416)) = ''190.95''"
proof -
  have "round_half_even (3359227925181235 / 17592186044416 * 100) = 19095"
    by (rule round_half_even_nearest) simp
  then show ?thesis
    by (simp add: format_2f_float_def digits.simps digit_char_def)
qed

lemma format_ttc: "format_2f_float (Fin (5259843724954829 / 4398046511104)) = ''1195.95''"
proof -
  have "round_half_even (5259843724954829 / 4398046511104 * 100) = 119595"
    by (rule round_half_even_nearest) simp
  then show ?thesis
    by (simp add: format_2f_float_def digits.simps digit_char_def)
qed

text \<open>
  Claim C9. A request with the single line quantity \<open>10\<close>, unit price \<open>100.50\<close>, tax rate
  \<open>19\<close> and no supplied Totals gets the totals \<open>1005.00\<close>, \<open>190.95\<close> and \<open>1195.95\<close>.
\<close>

theorem scenario_single_line_totals:
  assumes "products request = [p]" and "totals request = None"
    and "quantite p = Fin 10" and "prixUnitaire p = Some (Fin (201 / 2))"
    and "tauxTVA p = Some (Fin 19)"
  shows "resolve_totals E request
    = Inr (Some \<lparr>totalHT = ''1005.00'', totalTVA = ''190.95'', totalTTC = ''1195.95''\<rparr>)"
proof -
  let ?t = "3359227925181235 / 17592186044416 :: rat"
  have ht: "spec_line_ht p = Fin 1005"
    using assms by (simp add: spec_line_ht_def absent_as_zero_def round_double_1005)
  have tva: "spec_line_tva p = Fin ?t"
    using assms
    by (simp add: spec_line_tva_def ht absent_as_zero_def round_double_19095 div_100_def
        round_double_tva)
  have tht: "spec_total_ht b [p] = Fin 1005" for b
    by (simp add: spec_total_ht_def float_sum_single ht round_double_1005)
  have ttva: "spec_total_tva b [p] = Fin ?t" for b
    by (simp add: spec_total_tva_def float_sum_single tva round_double_tva_again)
  have "compute_totals E [p]
      = Inr \<lparr>totalHT = ''1005.00'', totalTVA = ''190.95'', totalTTC = ''1195.95''\<rparr>"
    by (simp add: compute_totals_spec tht ttva round_double_ttc format_1005 format_tva
        format_ttc)
  with assms show ?thesis
    by (simp add: resolve_totals_def)
qed

theorem scenario_single_line_totals_witness:
  "resolve_totals sample_env
     (sample_request
        \<lparr>products := [sample_product (Fin 10) (Some (Fin (201 / 2))) (Some (Fin 19))]\<rparr>)
   = Inr (Some \<lparr>totalHT = ''1005.00'', totalTVA = ''190.95'', totalTTC = ''1195.95''\<rparr>)"
  by (rule scenario_single_line_totals
      [where p = "sample_product (Fin 10) (Some (Fin (201 / 2))) (Some (Fin 19))"])
    (simp_all add: sample_request_def sample_product_def)

section \<open>The shape of the formatted totals\<close>

lemma is_digit_digit_char:
  assumes "0 \<le> d" and "d < 10"
  shows "is_digit (digit_char d)"
proof -
  from assms have "nat d < length ''0123456789''" by simp
  then have "''0123456789'' ! nat d \<in> set ''0123456789''" by (rule nth_mem)
  then show ?thesis by (simp only: is_digit_def digit_char_def)
qed

lemma digits_all_digit: "0 \<le> n \<Longrightarrow> digits n \<noteq> [] \<and> (\<forall>c \<in> set (digits n). is_digit c)"
proof (induction n rule: digits.induct)
  case (1 n)
  show ?case
  proof (cases "n < 10")
    case True
    with 1 show ?thesis
      by (simp add: digits.simps [of n] is_digit_digit_char)
  next
    case False
    with 1 have "digits (n div 10) \<noteq> [] \<and> (\<forall>c \<in> set (digits (n div 10)). is_digit c)"
      by simp
    moreover have "is_digit (digit_char (n mod 10))"
      by (rule is_digit_digit_char) simp_all
    ultimately show ?thesis using False
      by (simp add: digits.simps [of n])
  qed
qed

lemma not_digit_point: "\<not> is_digit CHR ''.''" and not_digit_minus: "\<not> is_digit CHR ''-''"
  by (simp_all add: is_digit_def)

lemma two_decimal_body:
  assumes "ds \<noteq> []" and "\<forall>c \<in> set ds. is_digit c" and "is_digit d1" and "is_digit d2"
  shows "two_decimal_string (ds @ ''.'' @ [d1, d2])"
    and "two_decimal_string (''-'' @ ds @ ''.'' @ [d1, d2])"
proof -
  have tw: "takeWhile is_digit (ds @ ''.'' @ [d1, d2]) = ds"
    and dw: "dropWhile is_digit (ds @ ''.'' @ [d1, d2]) = ''.'' @ [d1, d2]"
    using assms(2) by (simp_all add: takeWhile_append2 dropWhile_append2 not_digit_point)
  from assms(1,2) have "hd ds \<noteq> CHR ''-''"
    using not_digit_minus by (cases ds) auto
  with assms(1) have hd: "hd (ds @ ''.'' @ [d1, d2]) \<noteq> CHR ''-''" by simp
  show "two_decimal_string (ds @ ''.'' @ [d1, d2])"
    unfolding two_decimal_string_def using hd tw dw assms by (simp add: Let_def)
  show "two_decimal_string (''-'' @ ds @ ''.'' @ [d1, d2])"
    unfolding two_decimal_string_def using tw dw assms by (simp add: Let_def)
qed

lemma format_2f_float_shape: "two_decimal_string (format_2f_float (Fin r))"
proof -
  define c where "c = round_half_even (\<bar>r\<bar> * 100)"
  have c: "0 \<le> c" unfolding c_def by (rule round_half_even_nonneg) simp
  then have d: "digits (c div 100) \<noteq> [] \<and> (\<forall>x \<in> set (digits (c div 100)). is_digit x)"
    by (intro digits_all_digit) (simp add: pos_imp_zdiv_nonneg_iff)
  have d1: "is_digit (digit_char ((c div 10) mod 10))"
    and d2: "is_digit (digit_char (c mod 10))"
    by (rule is_digit_digit_char; simp)+
  from two_decimal_body [OF conjunct1 [OF d] conjunct2 [OF d] d1 d2]
  show ?thesis
    by (simp add: format_2f_float_def Let_def c_def [symmetric])
qed

lemma not_two_decimal: "\<not> two_decimal_string ''inf''" "\<not> two_decimal_string ''nan''"
  "\<not> two_decimal_string ''-inf''"
  by (simp_all add: two_decimal_string_def is_digit_def)

lemma bitlen_pow2: "bitlen (2 ^ n) = int n + 1"
proof (induction n)
  case 0
  show ?case by (simp add: bitlen.simps [of 1] bitlen.simps [of 0])
next
  case (Suc n)
  have "bitlen (2 ^ Suc n) = bitlen (2 ^ n) + 1"
    by (subst bitlen.simps) simp
  with Suc show ?case by simp
qed

lemma floor_log2_pow2: "floor_log2 (2 ^ n) = int n"
proof -
  have "\<lfloor>(2::rat) ^ n\<rfloor> = 2 ^ n"
    by (metis floor_of_int of_int_numeral of_int_power)
  then show ?thesis
    by (simp add: floor_log2_def bitlen_pow2)
qed

lemma round_double_pow2_overflow:
  assumes "1024 \<le> n"
  shows "round_double (2 ^ n) = PInf"
proof -
  have e: "max (floor_log2 \<bar>2 ^ n\<bar>) (- 1022) = int n"
    by (simp add: floor_log2_pow2)
  have "nat (int n - 52) = n - 52" by simp
  with assms have q: "pow2 (int n - 52) = 2 ^ (n - 52)"
    by (simp add: pow2_def)
  have split: "(2::rat) ^ n = 2 ^ 52 * 2 ^ (n - 52)"
    using assms by (simp only: power_add [symmetric]) simp
  then have d: "(2::rat) ^ n / 2 ^ (n - 52) = of_int (2 ^ 52)"
    by simp
  have m: "round_half_even ((2::rat) ^ n / 2 ^ (n - 52)) = 2 ^ 52"
    unfolding d by (rule round_half_even_of_int)
  have y: "of_int (2 ^ 52) * (2::rat) ^ (n - 52) = 2 ^ n"
    using split by simp
  have "(2::rat) ^ 1024 \<le> 2 ^ n"
    using assms by (intro power_increasing) simp_all
  then have big: "pow2 1024 \<le> 2 ^ n"
    by (simp add: pow2_def)
  have "round_double (2 ^ n)
      = (if pow2 1024 \<le> of_int (round_half_even (\<bar>2 ^ n\<bar> / pow2 (int n - 52)))
            * pow2 (int n - 52)
         then PInf else Fin (of_int (round_half_even (\<bar>2 ^ n\<bar> / pow2 (int n - 52)))
            * pow2 (int n - 52)))"
    unfolding round_double_def Let_def e by simp
  also have "\<dots> = PInf"
    unfolding q using m y big by simp
  finally show ?thesis .
qed


text \<open>
  The three-line invoice, step by step in binary64: the line amounts, their taxes, and
  the two sums taken with and without compensation. The before-tax sum is \<open>835.095\<close> with
  compensation and the double just below it without.
\<close>

lemma invoice_step_1: "fmul (Fin (3 / 2)) (Fin (1828619778386821 / 8796093022208)) = Fin (5485859335160463 / 17592186044416)"
proof -
  have "round_double ((3 / 2) * (1828619778386821 / 8796093022208)) = Fin (5485859335160463 / 17592186044416)"
  proof (rule round_double_eval_pos
      [where ?e0.0 = "8" and e = "8" and q = "1 / 2 ^ 44" and m = 5485859335160463])
    show "round_half_even (((3 / 2) * (1828619778386821 / 8796093022208)) / (1 / 2 ^ 44)) = 5485859335160463"
      by (rule round_half_even_nearest) simp
  qed (simp_all add: floor_log2_eval pow2_def)
  then show ?thesis
    by (simp only: fmul.simps)
qed

lemma invoice_step_2: "fmul (Fin (5485859335160463 / 17592186044416)) (Fin 19) = Fin (3257228980251525 / 549755813888)"
proof -
  have "round_double ((5485859335160463 / 17592186044416) * 19) = Fin (3257228980251525 / 549755813888)"
  proof (rule round_double_eval_pos
      [where ?e0.0 = "12" and e = "12" and q = "1 / 2 ^ 40" and m = 6514457960503050])
    show "round_half_even (((5485859335160463 / 17592186044416) * 19) / (1 / 2 ^ 40)) = 6514457960503050"
      by (rule round_half_even_nearest) simp
  qed (simp_all add: floor_log2_eval pow2_def)
  then show ?thesis
    by (simp only: fmul.simps)
qed

lemma invoice_step_3: "div_100 (Fin (3257228980251525 / 549755813888)) = Fin (130289159210061 / 2199023255552)"
proof -
  have "round_double ((3257228980251525 / 549755813888) / 100) = Fin (130289159210061 / 2199023255552)"
  proof (rule round_double_eval_pos
      [where ?e0.0 = "5" and e = "5" and q = "1 / 2 ^ 47" and m = 8338506189443904])
    show "round_half_even (((3257228980251525 / 549755813888) / 100) / (1 / 2 ^ 47)) = 8338506189443904"
      by (rule round_half_even_nearest) simp
  qed (simp_all add: floor_log2_eval pow2_def)
  then show ?thesis
    by (simp only: div_100_def pyfloat.case)
qed

lemma invoice_step_4: "fmul (Fin (5 / 2)) (Fin (4005388918592635 / 35184372088832)) = Fin (2503368074120397 / 8796093022208)"
proof -
  have "round_double ((5 / 2) * (4005388918592635 / 35184372088832)) = Fin (2503368074120397 / 8796093022208)"
  proof (rule round_double_eval_pos
      [where ?e0.0 = "8" and e = "8" and q = "1 / 2 ^ 44" and m = 5006736148240794])
    show "round_half_even (((5 / 2) * (4005388918592635 / 35184372088832)) / (1 / 2 ^ 44)) = 5006736148240794"
      by (rule round_half_even_nearest) simp
  qed (simp_all add: floor_log2_eval pow2_def)
  then show ?thesis
    by (simp only: fmul.simps)
qed

lemma invoice_step_5: "fmul (Fin (2503368074120397 / 8796093022208)) (Fin 19) = Fin (5945499176035943 / 1099511627776)"
proof -
  have "round_double ((2503368074120397 / 8796093022208) * 19) = Fin (5945499176035943 / 1099511627776)"
  proof (rule round_double_eval_pos
      [where ?e0.0 = "12" and e = "12" and q = "1 / 2 ^ 40" and m = 5945499176035943])
    show "round_half_even (((2503368074120397 / 8796093022208) * 19) / (1 / 2 ^ 40)) = 5945499176035943"
      by (rule round_half_even_nearest) simp
  qed (simp_all add: floor_log2_eval pow2_def)
  then show ?thesis
    by (simp only: fmul.simps)
qed

lemma invoice_step_6: "div_100 (Fin (5945499176035943 / 1099511627776)) = Fin (7610238945326007 / 140737488355328)"
proof -
  have "round_double ((5945499176035943 / 1099511627776) / 100) = Fin (7610238945326007 / 140737488355328)"
  proof (rule round_double_eval_pos
      [where ?e0.0 = "5" and e = "5" and q = "1 / 2 ^ 47" and m = 7610238945326007])
    show "round_half_even (((5945499176035943 / 1099511627776) / 100) / (1 / 2 ^ 47)) = 7610238945326007"
      by (rule round_half_even_nearest) simp
  qed (simp_all add: floor_log2_eval pow2_def)
  then show ?thesis
    by (simp only: div_100_def pyfloat.case)
qed

lemma invoice_step_7: "fmul (Fin 2) (Fin (8397102242720645 / 70368744177664)) = Fin (8397102242720645 / 35184372088832)"
proof -
  have "round_double (2 * (8397102242720645 / 70368744177664)) = Fin (8397102242720645 / 35184372088832)"
  proof (rule round_double_eval_pos
      [where ?e0.0 = "7" and e = "7" and q = "1 / 2 ^ 45" and m = 8397102242720645])
    show "round_half_even ((2 * (8397102242720645 / 70368744177664)) / (1 / 2 ^ 45)) = 8397102242720645"
      by (rule round_half_even_nearest) simp
  qed (simp_all add: floor_log2_eval pow2_def)
  then show ?thesis
    by (simp only: fmul.simps)
qed

lemma invoice_step_8: "fmul (Fin (8397102242720645 / 35184372088832)) (Fin 19) = Fin (4985779456615383 / 1099511627776)"
proof -
  have "round_double ((8397102242720645 / 35184372088832) * 19) = Fin (4985779456615383 / 1099511627776)"
  proof (rule round_double_eval_pos
      [where ?e0.0 = "12" and e = "12" and q = "1 / 2 ^ 40" and m = 4985779456615383])
    show "round_half_even (((8397102242720645 / 35184372088832) * 19) / (1 / 2 ^ 40)) = 4985779456615383"
      by (rule round_half_even_nearest) simp
  qed (simp_all add: floor_log2_eval pow2_def)
  then show ?thesis
    by (simp only: fmul.simps)
qed

lemma invoice_step_9: "div_100 (Fin (4985779456615383 / 1099511627776)) = Fin (3190898852233845 / 70368744177664)"
proof -
  have "round_double ((4985779456615383 / 1099511627776) / 100) = Fin (3190898852233845 / 70368744177664)"
  proof (rule round_double_eval_pos
      [where ?e0.0 = "5" and e = "5" and q = "1 / 2 ^ 47" and m = 6381797704467690])
    show "round_half_even (((4985779456615383 / 1099511627776) / 100) / (1 / 2 ^ 47)) = 6381797704467690"
      by (rule round_half_even_nearest) simp
  qed (simp_all add: floor_log2_eval pow2_def)
  then show ?thesis
    by (simp only: div_100_def pyfloat.case)
qed

lemma invoice_step_10: "fadd (Fin 0) (Fin (5485859335160463 / 17592186044416)) = Fin (5485859335160463 / 17592186044416)"
proof -
  have "round_double (0 + (5485859335160463 / 17592186044416)) = Fin (5485859335160463 / 17592186044416)"
  proof (rule round_double_eval_pos
      [where ?e0.0 = "8" and e = "8" and q = "1 / 2 ^ 44" and m = 5485859335160463])
    show "round_half_even ((0 + (5485859335160463 / 17592186044416)) / (1 / 2 ^ 44)) = 5485859335160463"
      by (rule round_half_even_nearest) simp
  qed (simp_all add: floor_log2_eval pow2_def)
  then show ?thesis
    by (simp only: fadd.simps)
qed

lemma invoice_step_11: "fadd (Fin (5485859335160463 / 17592186044416)) (Fin (2503368074120397 / 8796093022208)) = Fin (1311574435425157 / 2199023255552)"
proof -
  have "round_double ((5485859335160463 / 17592186044416) + (2503368074120397 / 8796093022208)) = Fin (1311574435425157 / 2199023255552)"
  proof (rule round_double_eval_pos
      [where ?e0.0 = "9" and e = "9" and q = "1 / 2 ^ 43" and m = 5246297741700628])
    show "round_half_even (((5485859335160463 / 17592186044416) + (2503368074120397 / 8796093022208)) / (1 / 2 ^ 43)) = 5246297741700628"
      using round_half_even_tie [of 5246297741700628] by simp
  qed (simp_all add: floor_log2_eval pow2_def)
  then show ?thesis
    by (simp only: fadd.simps)
qed

lemma invoice_step_12: "fsub (Fin (5485859335160463 / 17592186044416)) (Fin (1311574435425157 / 2199023255552)) = Fin (- (5006736148240793 / 17592186044416))"
proof -
  have "round_double ((5485859335160463 / 17592186044416) + - (1311574435425157 / 2199023255552)) = Fin (- (5006736148240793 / 17592186044416))"
  proof (rule round_double_eval_neg
      [where ?e0.0 = "8" and e = "8" and q = "1 / 2 ^ 44" and m = 5006736148240793])
    show "round_half_even ((- ((5485859335160463 / 17592186044416) + - (1311574435425157 / 2199023255552))) / (1 / 2 ^ 44)) = 5006736148240793"
      by (rule round_half_even_nearest) simp
  qed (simp_all add: floor_log2_eval pow2_def)
  then show ?thesis
    by (simp only: fsub_def fneg_def pyfloat.case fadd.simps)
qed

lemma invoice_step_13: "fadd (Fin (- (5006736148240793 / 17592186044416))) (Fin (2503368074120397 / 8796093022208)) = Fin (1 / 17592186044416)"
proof -
  have "round_double ((- (5006736148240793 / 17592186044416)) + (2503368074120397 / 8796093022208)) = Fin (1 / 17592186044416)"
  proof (rule round_double_eval_pos
      [where ?e0.0 = "- 44" and e = "- 44" and q = "1 / 2 ^ 96" and m = 4503599627370496])
    show "round_half_even (((- (5006736148240793 / 17592186044416)) + (2503368074120397 / 8796093022208)) / (1 / 2 ^ 96)) = 4503599627370496"
      by (rule round_half_even_nearest) simp
  qed (simp_all add: floor_log2_eval pow2_def)
  then show ?thesis
    by (simp only: fadd.simps)
qed

lemma invoice_step_14: "fadd (Fin 0) (Fin (1 / 17592186044416)) = Fin (1 / 17592186044416)"
proof -
  have "round_double (0 + (1 / 17592186044416)) = Fin (1 / 17592186044416)"
  proof (rule round_double_eval_pos
      [where ?e0.0 = "- 44" and e = "- 44" and q = "1 / 2 ^ 96" and m = 4503599627370496])
    show "round_half_even ((0 + (1 / 17592186044416)) / (1 / 2 ^ 96)) = 4503599627370496"
      by (rule round_half_even_nearest) simp
  qed (simp_all add: floor_log2_eval pow2_def)
  then show ?thesis
    by (simp only: fadd.simps)
qed

lemma invoice_step_15: "fadd (Fin (1311574435425157 / 2199023255552)) (Fin (8397102242720645 / 35184372088832)) = Fin (7345573302380789 / 8796093022208)"
proof -
  have "round_double ((1311574435425157 / 2199023255552) + (8397102242720645 / 35184372088832)) = Fin (7345573302380789 / 8796093022208)"
  proof (rule round_double_eval_pos
      [where ?e0.0 = "9" and e = "9" and q = "1 / 2 ^ 43" and m = 7345573302380789])
    show "round_half_even (((1311574435425157 / 2199023255552) + (8397102242720645 / 35184372088832)) / (1 / 2 ^ 43)) = 7345573302380789"
      by (rule round_half_even_nearest) simp
  qed (simp_all add: floor_log2_eval pow2_def)
  then show ?thesis
    by (simp only: fadd.simps)
qed

lemma invoice_step_16: "fsub (Fin (1311574435425157 / 2199023255552)) (Fin (7345573302380789 / 8796093022208)) = Fin (- (2099275560680161 / 8796093022208))"
proof -
  have "round_double ((1311574435425157 / 2199023255552) + - (7345573302380789 / 8796093022208)) = Fin (- (2099275560680161 / 8796093022208))"
  proof (rule round_double_eval_neg
      [where ?e0.0 = "7" and e = "7" and q = "1 / 2 ^ 45" and m = 8397102242720644])
    show "round_half_even ((- ((1311574435425157 / 2199023255552) + - (7345573302380789 / 8796093022208))) / (1 / 2 ^ 45)) = 8397102242720644"
      by (rule round_half_even_nearest) simp
  qed (simp_all add: floor_log2_eval pow2_def)
  then show ?thesis
    by (simp only: fsub_def fneg_def pyfloat.case fadd.simps)
qed

lemma invoice_step_17: "fadd (Fin (- (2099275560680161 / 8796093022208))) (Fin (8397102242720645 / 35184372088832)) = Fin (1 / 35184372088832)"
proof -
  have "round_double ((- (2099275560680161 / 8796093022208)) + (8397102242720645 / 35184372088832)) = Fin (1 / 35184372088832)"
  proof (rule round_double_eval_pos
      [where ?e0.0 = "- 45" and e = "- 45" and q = "1 / 2 ^ 97" and m = 4503599627370496])
    show "round_half_even (((- (2099275560680161 / 8796093022208)) + (8397102242720645 / 35184372088832)) / (1 / 2 ^ 97)) = 4503599627370496"
      by (rule round_half_even_nearest) simp
  qed (simp_all add: floor_log2_eval pow2_def)
  then show ?thesis
    by (simp only: fadd.simps)
qed

lemma invoice_step_18: "fadd (Fin (1 / 17592186044416)) (Fin (1 / 35184372088832)) = Fin (3 / 35184372088832)"
proof -
  have "round_double ((1 / 17592186044416) + (1 / 35184372088832)) = Fin (3 / 35184372088832)"
  proof (rule round_double_eval_pos
      [where ?e0.0 = "- 44" and e = "- 44" and q = "1 / 2 ^ 96" and m = 6755399441055744])
    show "round_half_even (((1 / 17592186044416) + (1 / 35184372088832)) / (1 / 2 ^ 96)) = 6755399441055744"
      by (rule round_half_even_nearest) simp
  qed (simp_all add: floor_log2_eval pow2_def)
  then show ?thesis
    by (simp only: fadd.simps)
qed

lemma invoice_step_19: "fadd (Fin (7345573302380789 / 8796093022208)) (Fin (3 / 35184372088832)) = Fin (3672786651190395 / 4398046511104)"
proof -
  have "round_double ((7345573302380789 / 8796093022208) + (3 / 35184372088832)) = Fin (3672786651190395 / 4398046511104)"
  proof (rule round_double_eval_pos
      [where ?e0.0 = "9" and e = "9" and q = "1 / 2 ^ 43" and m = 7345573302380790])
    show "round_half_even (((7345573302380789 / 8796093022208) + (3 / 35184372088832)) / (1 / 2 ^ 43)) = 7345573302380790"
      by (rule round_half_even_nearest) simp
  qed (simp_all add: floor_log2_eval pow2_def)
  then show ?thesis
    by (simp only: fadd.simps)
qed

lemma invoice_ht_compensated: "float_sum True [Fin (5485859335160463 / 17592186044416), Fin (2503368074120397 / 8796093022208), Fin (8397102242720645 / 35184372088832)] = Fin (3672786651190395 / 4398046511104)"
proof -
  have invoice_ht_compensated_c1: "compensate (Fin (5485859335160463 / 17592186044416)) (Fin 0) (Fin (2503368074120397 / 8796093022208)) = Fin (1 / 17592186044416)"
  proof -
    have g: "fabs_ge (Fin (5485859335160463 / 17592186044416)) (Fin (2503368074120397 / 8796093022208)) = True" by simp
    show ?thesis
      by (simp only: compensate_def Let_def invoice_step_11 g if_True if_False invoice_step_12 invoice_step_13 invoice_step_14)
  qed
  have invoice_ht_compensated_c2: "compensate (Fin (1311574435425157 / 2199023255552)) (Fin (1 / 17592186044416)) (Fin (8397102242720645 / 35184372088832)) = Fin (3 / 35184372088832)"
  proof -
    have g: "fabs_ge (Fin (1311574435425157 / 2199023255552)) (Fin (8397102242720645 / 35184372088832)) = True" by simp
    show ?thesis
      by (simp only: compensate_def Let_def invoice_step_15 g if_True if_False invoice_step_16 invoice_step_17 invoice_step_18)
  qed
  have fin: "add_compensation (Fin (7345573302380789 / 8796093022208)) (Fin (3 / 35184372088832)) = Fin (3672786651190395 / 4398046511104)"
    by (simp add: add_compensation_def is_finite_def invoice_step_19 del: fadd.simps)
  show ?thesis
    by (simp only: float_sum_def if_True list.case neumaier.simps invoice_step_10 invoice_step_11 invoice_step_15 invoice_ht_compensated_c1 invoice_ht_compensated_c2 fin)
qed

lemma invoice_step_20: "fadd (Fin 0) (Fin (130289159210061 / 2199023255552)) = Fin (130289159210061 / 2199023255552)"
proof -
  have "round_double (0 + (130289159210061 / 2199023255552)) = Fin (130289159210061 / 2199023255552)"
  proof (rule round_double_eval_pos
      [where ?e0.0 = "5" and e = "5" and q = "1 / 2 ^ 47" and m = 8338506189443904])
    show "round_half_even ((0 + (130289159210061 / 2199023255552)) / (1 / 2 ^ 47)) = 8338506189443904"
      by (rule round_half_even_nearest) simp
  qed (simp_all add: floor_log2_eval pow2_def)
  then show ?thesis
    by (simp only: fadd.simps)
qed

lemma invoice_step_21: "fadd (Fin (130289159210061 / 2199023255552)) (Fin (7610238945326007 / 140737488355328)) = Fin (1993593141846239 / 17592186044416)"
proof -
  have "round_double ((130289159210061 / 2199023255552) + (7610238945326007 / 140737488355328)) = Fin (1993593141846239 / 17592186044416)"
  proof (rule round_double_eval_pos
      [where ?e0.0 = "6" and e = "6" and q = "1 / 2 ^ 46" and m = 7974372567384956])
    show "round_half_even (((130289159210061 / 2199023255552) + (7610238945326007 / 140737488355328)) / (1 / 2 ^ 46)) = 7974372567384956"
      using round_half_even_tie [of 7974372567384955] by simp
  qed (simp_all add: floor_log2_eval pow2_def)
  then show ?thesis
    by (simp only: fadd.simps)
qed

lemma invoice_step_22: "fsub (Fin (130289159210061 / 2199023255552)) (Fin (1993593141846239 / 17592186044416)) = Fin (- (951279868165751 / 17592186044416))"
proof -
  have "round_double ((130289159210061 / 2199023255552) + - (1993593141846239 / 17592186044416)) = Fin (- (951279868165751 / 17592186044416))"
  proof (rule round_double_eval_neg
      [where ?e0.0 = "5" and e = "5" and q = "1 / 2 ^ 47" and m = 7610238945326008])
    show "round_half_even ((- ((130289159210061 / 2199023255552) + - (1993593141846239 / 17592186044416))) / (1 / 2 ^ 47)) = 7610238945326008"
      by (rule round_half_even_nearest) simp
  qed (simp_all add: floor_log2_eval pow2_def)
  then show ?thesis
    by (simp only: fsub_def fneg_def pyfloat.case fadd.simps)
qed

lemma invoice_step_23: "fadd (Fin (- (951279868165751 / 17592186044416))) (Fin (7610238945326007 / 140737488355328)) = Fin (- (1 / 140737488355328))"
proof -
  have "round_double ((- (951279868165751 / 17592186044416)) + (7610238945326007 / 140737488355328)) = Fin (- (1 / 140737488355328))"
  proof (rule round_double_eval_neg
      [where ?e0.0 = "- 47" and e = "- 47" and q = "1 / 2 ^ 99" and m = 4503599627370496])
    show "round_half_even ((- ((- (951279868165751 / 17592186044416)) + (7610238945326007 / 140737488355328))) / (1 / 2 ^ 99)) = 4503599627370496"
      by (rule round_half_even_nearest) simp
  qed (simp_all add: floor_log2_eval pow2_def)
  then show ?thesis
    by (simp only: fadd.simps)
qed

lemma invoice_step_24: "fadd (Fin 0) (Fin (- (1 / 140737488355328))) = Fin (- (1 / 140737488355328))"
proof -
  have "round_double (0 + (- (1 / 140737488355328))) = Fin (- (1 / 140737488355328))"
  proof (rule round_double_eval_neg
      [where ?e0.0 = "- 47" and e = "- 47" and q = "1 / 2 ^ 99" and m = 4503599627370496])
    show "round_half_even ((- (0 + (- (1 / 140737488355328)))) / (1 / 2 ^ 99)) = 4503599627370496"
      by (rule round_half_even_nearest) simp
  qed (simp_all add: floor_log2_eval pow2_def)
  then show ?thesis
    by (simp only: fadd.simps)
qed

lemma invoice_step_25: "fadd (Fin (1993593141846239 / 17592186044416)) (Fin (3190898852233845 / 70368744177664)) = Fin (697829463726175 / 4398046511104)"
proof -
  have "round_double ((1993593141846239 / 17592186044416) + (3190898852233845 / 70368744177664)) = Fin (697829463726175 / 4398046511104)"
  proof (rule round_double_eval_pos
      [where ?e0.0 = "7" and e = "7" and q = "1 / 2 ^ 45" and m = 5582635709809400])
    show "round_half_even (((1993593141846239 / 17592186044416) + (3190898852233845 / 70368744177664)) / (1 / 2 ^ 45)) = 5582635709809400"
      using round_half_even_tie [of 5582635709809400] by simp
  qed (simp_all add: floor_log2_eval pow2_def)
  then show ?thesis
    by (simp only: fadd.simps)
qed

lemma invoice_step_26: "fsub (Fin (1993593141846239 / 17592186044416)) (Fin (697829463726175 / 4398046511104)) = Fin (- (797724713058461 / 17592186044416))"
proof -
  have "round_double ((1993593141846239 / 17592186044416) + - (697829463726175 / 4398046511104)) = Fin (- (797724713058461 / 17592186044416))"
  proof (rule round_double_eval_neg
      [where ?e0.0 = "5" and e = "5" and q = "1 / 2 ^ 47" and m = 6381797704467688])
    show "round_half_even ((- ((1993593141846239 / 17592186044416) + - (697829463726175 / 4398046511104))) / (1 / 2 ^ 47)) = 6381797704467688"
      by (rule round_half_even_nearest) simp
  qed (simp_all add: floor_log2_eval pow2_def)
  then show ?thesis
    by (simp only: fsub_def fneg_def pyfloat.case fadd.simps)
qed

lemma invoice_step_27: "fadd (Fin (- (797724713058461 / 17592186044416))) (Fin (3190898852233845 / 70368744177664)) = Fin (1 / 70368744177664)"
proof -
  have "round_double ((- (797724713058461 / 17592186044416)) + (3190898852233845 / 70368744177664)) = Fin (1 / 70368744177664)"
  proof (rule round_double_eval_pos
      [where ?e0.0 = "- 46" and e = "- 46" and q = "1 / 2 ^ 98" and m = 4503599627370496])
    show "round_half_even (((- (797724713058461 / 17592186044416)) + (3190898852233845 / 70368744177664)) / (1 / 2 ^ 98)) = 4503599627370496"
      by (rule round_half_even_nearest) simp
  qed (simp_all add: floor_log2_eval pow2_def)
  then show ?thesis
    by (simp only: fadd.simps)
qed

lemma invoice_step_28: "fadd (Fin (- (1 / 140737488355328))) (Fin (1 / 70368744177664)) = Fin (1 / 140737488355328)"
proof -
  have "round_double ((- (1 / 140737488355328)) + (1 / 70368744177664)) = Fin (1 / 140737488355328)"
  proof (rule round_double_eval_pos
      [where ?e0.0 = "- 47" and e = "- 47" and q = "1 / 2 ^ 99" and m = 4503599627370496])
    show "round_half_even (((- (1 / 140737488355328)) + (1 / 70368744177664)) / (1 / 2 ^ 99)) = 4503599627370496"
      by (rule round_half_even_nearest) simp
  qed (simp_all add: floor_log2_eval pow2_def)
  then show ?thesis
    by (simp only: fadd.simps)
qed

lemma invoice_step_29: "fadd (Fin (697829463726175 / 4398046511104)) (Fin (1 / 140737488355328)) = Fin (697829463726175 / 4398046511104)"
proof -
  have "round_double ((697829463726175 / 4398046511104) + (1 / 140737488355328)) = Fin (697829463726175 / 4398046511104)"
  proof (rule round_double_eval_pos
      [where ?e0.0 = "7" and e = "7" and q = "1 / 2 ^ 45" and m = 5582635709809400])
    show "round_half_even (((697829463726175 / 4398046511104) + (1 / 140737488355328)) / (1 / 2 ^ 45)) = 5582635709809400"
      by (rule round_half_even_nearest) simp
  qed (simp_all add: floor_log2_eval pow2_def)
  then show ?thesis
    by (simp only: fadd.simps)
qed

lemma invoice_tva_compensated: "float_sum True [Fin (130289159210061 / 2199023255552), Fin (7610238945326007 / 140737488355328), Fin (3190898852233845 / 70368744177664)] = Fin (697829463726175 / 4398046511104)"
proof -
  have invoice_tva_compensated_c1: "compensate (Fin (130289159210061 / 2199023255552)) (Fin 0) (Fin (7610238945326007 / 140737488355328)) = Fin (- (1 / 140737488355328))"
  proof -
    have g: "fabs_ge (Fin (130289159210061 / 2199023255552)) (Fin (7610238945326007 / 140737488355328)) = True" by simp
    show ?thesis
      by (simp only: compensate_def Let_def invoice_step_21 g if_True if_False invoice_step_22 invoice_step_23 invoice_step_24)
  qed
  have invoice_tva_compensated_c2: "compensate (Fin (1993593141846239 / 17592186044416)) (Fin (- (1 / 140737488355328))) (Fin (3190898852233845 / 70368744177664)) = Fin (1 / 140737488355328)"
  proof -
    have g: "fabs_ge (Fin (1993593141846239 / 17592186044416)) (Fin (3190898852233845 / 70368744177664)) = True" by simp
    show ?thesis
      by (simp only: compensate_def Let_def invoice_step_25 g if_True if_False invoice_step_26 invoice_step_27 invoice_step_28)
  qed
  have fin: "add_compensation (Fin (697829463726175 / 4398046511104)) (Fin (1 / 140737488355328)) = Fin (697829463726175 / 4398046511104)"
    by (simp add: add_compensation_def is_finite_def invoice_step_29 del: fadd.simps)
  show ?thesis
    by (simp only: float_sum_def if_True list.case neumaier.simps invoice_step_20 invoice_step_21 invoice_step_25 invoice_tva_compensated_c1 invoice_tva_compensated_c2 fin)
qed

lemma invoice_step_30: "fadd (Fin (3672786651190395 / 4398046511104)) (Fin (697829463726175 / 4398046511104)) = Fin (2185308057458285 / 2199023255552)"
proof -
  have "round_double ((3672786651190395 / 4398046511104) + (697829463726175 / 4398046511104)) = Fin (2185308057458285 / 2199023255552)"
  proof (rule round_double_eval_pos
      [where ?e0.0 = "9" and e = "9" and q = "1 / 2 ^ 43" and m = 8741232229833140])
    show "round_half_even (((3672786651190395 / 4398046511104) + (697829463726175 / 4398046511104)) / (1 / 2 ^ 43)) = 8741232229833140"
      by (rule round_half_even_nearest) simp
  qed (simp_all add: floor_log2_eval pow2_def)
  then show ?thesis
    by (simp only: fadd.simps)
qed

lemma invoice_format_1: "format_2f_float (Fin (3672786651190395 / 4398046511104)) = ''835.10''"
proof -
  have "round_half_even ((3672786651190395 / 4398046511104) * 100) = 83510"
    by (rule round_half_even_nearest) simp
  then show ?thesis
    by (simp add: format_2f_float_def digits.simps digit_char_def)
qed

lemma invoice_format_2: "format_2f_float (Fin (697829463726175 / 4398046511104)) = ''158.67''"
proof -
  have "round_half_even ((697829463726175 / 4398046511104) * 100) = 15867"
    by (rule round_half_even_nearest) simp
  then show ?thesis
    by (simp add: format_2f_float_def digits.simps digit_char_def)
qed

lemma invoice_format_3: "format_2f_float (Fin (2185308057458285 / 2199023255552)) = ''993.76''"
proof -
  have "round_half_even ((2185308057458285 / 2199023255552) * 100) = 99376"
    by (rule round_half_even_nearest) simp
  then show ?thesis
    by (simp add: format_2f_float_def digits.simps digit_char_def)
qed

lemma invoice_ht_plain: "float_sum False [Fin (5485859335160463 / 17592186044416), Fin (2503368074120397 / 8796093022208), Fin (8397102242720645 / 35184372088832)] = Fin (7345573302380789 / 8796093022208)"
  by (simp only: float_sum_def if_False foldl.simps invoice_step_10 invoice_step_11 invoice_step_15)

lemma invoice_tva_plain: "float_sum False [Fin (130289159210061 / 2199023255552), Fin (7610238945326007 / 140737488355328), Fin (3190898852233845 / 70368744177664)] = Fin (697829463726175 / 4398046511104)"
  by (simp only: float_sum_def if_False foldl.simps invoice_step_20 invoice_step_21 invoice_step_25)

lemma invoice_step_31: "fadd (Fin (7345573302380789 / 8796093022208)) (Fin (697829463726175 / 4398046511104)) = Fin (8741232229833139 / 8796093022208)"
proof -
  have "round_double ((7345573302380789 / 8796093022208) + (697829463726175 / 4398046511104)) = Fin (8741232229833139 / 8796093022208)"
  proof (rule round_double_eval_pos
      [where ?e0.0 = "9" and e = "9" and q = "1 / 2 ^ 43" and m = 8741232229833139])
    show "round_half_even (((7345573302380789 / 8796093022208) + (697829463726175 / 4398046511104)) / (1 / 2 ^ 43)) = 8741232229833139"
      by (rule round_half_even_nearest) simp
  qed (simp_all add: floor_log2_eval pow2_def)
  then show ?thesis
    by (simp only: fadd.simps)
qed

lemma invoice_format_4: "format_2f_float (Fin (7345573302380789 / 8796093022208)) = ''835.09''"
proof -
  have "round_half_even ((7345573302380789 / 8796093022208) * 100) = 83509"
    by (rule round_half_even_nearest) simp
  then show ?thesis
    by (simp add: format_2f_float_def digits.simps digit_char_def)
qed

lemma invoice_format_5: "format_2f_float (Fin (8741232229833139 / 8796093022208)) = ''993.76''"
proof -
  have "round_half_even ((8741232229833139 / 8796093022208) * 100) = 99376"
    by (rule round_half_even_nearest) simp
  then show ?thesis
    by (simp add: format_2f_float_def digits.simps digit_char_def)
qed

lemma invoice_line_hts: "map spec_line_ht invoice_lines = [Fin (5485859335160463 / 17592186044416), Fin (2503368074120397 / 8796093022208), Fin (8397102242720645 / 35184372088832)]"
  by (simp add: invoice_lines_def sample_product_def spec_line_ht_def absent_as_zero_def
      invoice_step_1 invoice_step_4 invoice_step_7 del: fmul.simps)

lemma invoice_line_tvas: "map spec_line_tva invoice_lines = [Fin (130289159210061 / 2199023255552), Fin (7610238945326007 / 140737488355328), Fin (3190898852233845 / 70368744177664)]"
  by (simp add: invoice_lines_def sample_product_def spec_line_tva_def spec_line_ht_def
      absent_as_zero_def invoice_step_1 invoice_step_4 invoice_step_7
      invoice_step_2 invoice_step_3 invoice_step_5 invoice_step_6 invoice_step_8 invoice_step_9 del: fmul.simps)

lemma invoice_totals_compensated:
  "spec_total_ht True invoice_lines = Fin (3672786651190395 / 4398046511104)"
  "spec_total_tva True invoice_lines = Fin (697829463726175 / 4398046511104)"
  "fadd (Fin (3672786651190395 / 4398046511104)) (Fin (697829463726175 / 4398046511104)) = Fin (2185308057458285 / 2199023255552)"
  by (simp_all only: spec_total_ht_def spec_total_tva_def invoice_line_hts invoice_line_tvas
      invoice_ht_compensated invoice_tva_compensated invoice_step_30)

lemma invoice_totals_plain:
  "spec_total_ht False invoice_lines = Fin (7345573302380789 / 8796093022208)"
  "spec_total_tva False invoice_lines = Fin (697829463726175 / 4398046511104)"
  "fadd (Fin (7345573302380789 / 8796093022208)) (Fin (697829463726175 / 4398046511104)) = Fin (8741232229833139 / 8796093022208)"
  by (simp_all only: spec_total_ht_def spec_total_tva_def invoice_line_hts invoice_line_tvas
      invoice_ht_plain invoice_tva_plain invoice_step_31)



text \<open>
  Claim C1, as the code has it. For a non-empty product list and no supplied Totals the
  three totals are the formatted float sums of the specification: the sum of
  \<open>quantite \<times> prixUnitaire\<close>, the sum of \<open>quantite \<times> prixUnitaire \<times> tauxTVA / 100\<close> (an
  absent price or rate counting as zero) and the sum of the two, where a sum over the
  products is what the interpreter's \<open>sum\<close> makes of the floats, compensated or not. Each
  total that is a finite number is printed as a two-decimal string.
\<close>

theorem computed_totals_spec:
  assumes "products request \<noteq> []" and "totals request = None"
  shows "resolve_totals E request
      = Inr (Some
          \<lparr>totalHT = format_2f_float (spec_total_ht (compensated_sum E) (products request)),
           totalTVA = format_2f_float (spec_total_tva (compensated_sum E) (products request)),
           totalTTC = format_2f_float
             (fadd (spec_total_ht (compensated_sum E) (products request))
                (spec_total_tva (compensated_sum E) (products request)))\<rparr>)
    \<and> (is_finite (spec_total_ht (compensated_sum E) (products request)) \<longrightarrow>
          two_decimal_string
            (format_2f_float (spec_total_ht (compensated_sum E) (products request))))
    \<and> (is_finite (spec_total_tva (compensated_sum E) (products request)) \<longrightarrow>
          two_decimal_string
            (format_2f_float (spec_total_tva (compensated_sum E) (products request))))
    \<and> (is_finite (fadd (spec_total_ht (compensated_sum E) (products request))
            (spec_total_tva (compensated_sum E) (products request)))
          \<longrightarrow> two_decimal_string (format_2f_float
            (fadd (spec_total_ht (compensated_sum E) (products request))
               (spec_total_tva (compensated_sum E) (products request)))))"
proof -
  have shape: "two_decimal_string (format_2f_float x)" if "is_finite x" for x
    using that by (cases x) (simp_all add: is_finite_def format_2f_float_shape)
  from assms show ?thesis
    by (simp add: resolve_totals_def compute_totals_spec shape)
qed

theorem computed_totals_spec_witness:
  "resolve_totals sample_env (sample_request\<lparr>products := invoice_lines\<rparr>)
     = Inr (Some \<lparr>totalHT = ''835.10'', totalTVA = ''158.67'', totalTTC = ''993.76''\<rparr>)
   \<and> resolve_totals sample_env_plain (sample_request\<lparr>products := invoice_lines\<rparr>)
     = Inr (Some \<lparr>totalHT = ''835.09'', totalTVA = ''158.67'', totalTTC = ''993.76''\<rparr>)
   \<and> two_decimal_string ''835.10'' \<and> two_decimal_string ''835.09''"
proof -
  let ?r = "sample_request\<lparr>products := invoice_lines\<rparr>"
  have ne: "products ?r \<noteq> []"
    by (simp add: invoice_lines_def)
  have no: "totals ?r = None"
    by (simp add: sample_request_def)
  have c: "compensated_sum sample_env = True" "compensated_sum sample_env_plain = False"
    by (simp_all add: sample_env_def sample_env_plain_def)
  from computed_totals_spec [OF ne no, where E = sample_env]
  have a: "resolve_totals sample_env ?r
      = Inr (Some \<lparr>totalHT = ''835.10'', totalTVA = ''158.67'', totalTTC = ''993.76''\<rparr>)
    \<and> two_decimal_string ''835.10''"
    by (simp add: c invoice_totals_compensated invoice_format_1 invoice_format_2 invoice_format_3 is_finite_def
        del: fadd.simps)
  from computed_totals_spec [OF ne no, where E = sample_env_plain]
  have b: "resolve_totals sample_env_plain ?r
      = Inr (Some \<lparr>totalHT = ''835.09'', totalTVA = ''158.67'', totalTTC = ''993.76''\<rparr>)
    \<and> two_decimal_string ''835.09''"
    by (simp add: c invoice_totals_plain invoice_format_4 invoice_format_2 invoice_format_5 is_finite_def
        del: fadd.simps)
  from a b show ?thesis by blast
qed

text \<open>
  The claim as stated fails when a sum overflows: for the single line with quantity and
  unit price \<open>2^600\<close> the before-tax total is infinite and the other two are not numbers,
  on either kind of interpreter, and none of the three strings has two decimals.
\<close>

lemma spec_line_ht_huge: "spec_line_ht huge_product = PInf"
proof -
  have "(2::rat) ^ 600 * 2 ^ 600 = 2 ^ (600 + 600)"
    by (simp only: power_add)
  also have "\<dots> = 2 ^ 1200"
    by (simp only: numeral_plus_numeral) simp
  finally have "round_double (2 ^ 600 * 2 ^ 600) = PInf"
    using round_double_pow2_overflow [of 1200] by simp
  then have "fmul (Fin (2 ^ 600)) (Fin (2 ^ 600)) = PInf"
    by (simp only: fmul.simps)
  moreover have "quantite huge_product = Fin (2 ^ 600)"
    and "absent_as_zero (prixUnitaire huge_product) = Fin (2 ^ 600)"
    unfolding huge_product_def sample_product_def absent_as_zero_def
    by (simp_all only: Product.simps option.simps)
  ultimately show ?thesis
    by (simp only: spec_line_ht_def)
qed

lemma compute_totals_huge:
  "compute_totals E [huge_product]
    = Inr \<lparr>totalHT = ''inf'', totalTVA = ''nan'', totalTTC = ''nan''\<rparr>"
proof -
  have tva0: "absent_as_zero (tauxTVA huge_product) = Fin 0"
    by (simp add: huge_product_def sample_product_def absent_as_zero_def)
  have ht: "spec_total_ht b [huge_product] = PInf" for b
    by (simp add: spec_total_ht_def float_sum_single spec_line_ht_huge)
  have tva: "spec_total_tva b [huge_product] = NaN" for b
    by (simp add: spec_total_tva_def float_sum_single spec_line_tva_def spec_line_ht_huge
        tva0 div_100_def)
  show ?thesis
    by (simp add: compute_totals_spec ht tva format_2f_float_def)
qed

theorem computed_totals_overflow_counterexample:
  "resolve_totals sample_env (sample_request\<lparr>products := [huge_product]\<rparr>)
     = Inr (Some \<lparr>totalHT = ''inf'', totalTVA = ''nan'', totalTTC = ''nan''\<rparr>)
   \<and> resolve_totals sample_env_plain (sample_request\<lparr>products := [huge_product]\<rparr>)
     = Inr (Some \<lparr>totalHT = ''inf'', totalTVA = ''nan'', totalTTC = ''nan''\<rparr>)
   \<and> \<not> two_decimal_string ''inf'' \<and> \<not> two_decimal_string ''nan''"
  by (simp add: resolve_totals_def sample_request_def compute_totals_huge not_two_decimal)

section \<open>The amount in words\<close>

lemma centimes_of_finite:
  assumes "0 \<le> r" and "round_double (of_int \<lfloor>r\<rfloor>) = Fin (of_int \<lfloor>r\<rfloor>)"
  shows "\<exists>f g. round_double (r - of_int \<lfloor>r\<rfloor>) = Fin f \<and> round_double (f * 100) = Fin g
    \<and> centimes_of (PyFloat (Fin r)) \<lfloor>r\<rfloor> = Inr (round_half_even g)"
proof -
  have lo: "0 \<le> r - of_int \<lfloor>r\<rfloor>" and hi: "r - of_int \<lfloor>r\<rfloor> < 1" by linarith+
  have big: "(300::rat) < pow2 1023" by (simp add: pow2_def)
  from lo hi have "\<bar>r - of_int \<lfloor>r\<rfloor>\<bar> < 1" by simp
  with big have "\<bar>r - of_int \<lfloor>r\<rfloor>\<bar> < pow2 1023" by linarith
  from round_double_finite [OF this] obtain f
    where f: "round_double (r - of_int \<lfloor>r\<rfloor>) = Fin f"
      and fb: "\<bar>f\<bar> \<le> 2 * \<bar>r - of_int \<lfloor>r\<rfloor>\<bar> + 1" by blast
  from fb lo hi have "\<bar>f\<bar> \<le> 3" by simp
  then have "\<bar>f * 100\<bar> \<le> 300" by (simp add: abs_mult)
  with big have "\<bar>f * 100\<bar> < pow2 1023" by linarith
  from round_double_finite [OF this] obtain g
    where g: "round_double (f * 100) = Fin g" by blast
  have "centimes_of (PyFloat (Fin r)) \<lfloor>r\<rfloor> = Inr (round_half_even g)"
    by (simp add: centimes_of_def num_sub_def num_mul_def to_float_def fsub_def fneg_def
        assms(2) f round_double_100 g py_round_def)
  with f g show ?thesis by blast
qed

lemma french_words_success:
  assumes "py_int n = Inr k" and "0 \<le> k" and "centimes_of n k = Inr c"
    and "num2words E k = Inr w" and "0 < c \<longrightarrow> num2words E c = Inr cw"
  shows "number_to_french_words E n =
    w @ '' dinar'' @ (if k = 1 then [] else ''s'')
      @ (if 0 < c then '' et '' @ cw @ '' centime'' @ (if c = 1 then [] else ''s'') else [])"
proof -
  from assms(2) have pl: "(1 < k \<or> k = 0) = (k \<noteq> 1)" by linarith
  have pc: "(1 < c) = (c \<noteq> 1)" if "0 < c" using that by linarith
  from assms(1,3,4,5) show ?thesis
    by (simp add: number_to_french_words_def french_words_try_def Let_def pl pc)
qed

text \<open>
  Claim C4. For a non-negative amount whose integer part is a double (as the truncation
  of every double is), the converter does not fall back: the centimes are the fractional
  part times \<open>100\<close>, both computed in float arithmetic, rounded to the nearest integer;
  \<open>dinar\<close> gets its \<open>s\<close> exactly when the integer part is not \<open>1\<close>; the clause
  \<open>et ... centime\<close> is appended exactly when the centimes are positive, with an \<open>s\<close>
  unless they are \<open>1\<close>. The words themselves are those of \<open>num2words\<close>, where it succeeds.
\<close>

theorem french_words_plural_and_centimes:
  assumes "0 \<le> r" and "round_double (of_int \<lfloor>r\<rfloor>) = Fin (of_int \<lfloor>r\<rfloor>)"
  shows "\<exists>f g. round_double (r - of_int \<lfloor>r\<rfloor>) = Fin f \<and> round_double (f * 100) = Fin g
    \<and> centimes_of (PyFloat (Fin r)) \<lfloor>r\<rfloor> = Inr (round_half_even g)
    \<and> (\<forall>w cw. num2words E \<lfloor>r\<rfloor> = Inr w
          \<and> (0 < round_half_even g \<longrightarrow> num2words E (round_half_even g) = Inr cw) \<longrightarrow>
        number_to_french_words E (PyFloat (Fin r)) =
          w @ '' dinar'' @ (if \<lfloor>r\<rfloor> = 1 then [] else ''s'')
            @ (if 0 < round_half_even g
               then '' et '' @ cw @ '' centime''
                 @ (if round_half_even g = 1 then [] else ''s'')
               else []))"
proof -
  from centimes_of_finite [OF assms] obtain f g
    where f: "round_double (r - of_int \<lfloor>r\<rfloor>) = Fin f"
      and g: "round_double (f * 100) = Fin g"
      and c: "centimes_of (PyFloat (Fin r)) \<lfloor>r\<rfloor> = Inr (round_half_even g)"
    by blast
  from assms(1) have i: "py_int (PyFloat (Fin r)) = Inr \<lfloor>r\<rfloor>" and k: "0 \<le> \<lfloor>r\<rfloor>"
    by (simp_all add: py_int_def)
  from french_words_success [OF i k c] f g c show ?thesis
    by blast
qed

lemma round_double_2: "round_double 2 = Fin 2"
  by (rule round_double_eval
      [where ?e0.0 = 1 and e = 1 and q = "1 / 2 ^ 51" and m = "2 * 2 ^ 51"])
    (simp_all add: floor_log2_eval pow2_def)

lemma round_double_half: "round_double (1 / 2) = Fin (1 / 2)"
  by (rule round_double_eval
      [where ?e0.0 = "- 1" and e = "- 1" and q = "1 / 2 ^ 53" and m = "2 ^ 52"])
    (simp_all add: floor_log2_eval pow2_def)

lemma round_double_50: "round_double 50 = Fin 50"
  by (rule round_double_eval
      [where ?e0.0 = 5 and e = 5 and q = "1 / 2 ^ 47" and m = "50 * 2 ^ 47"])
    (simp_all add: floor_log2_eval pow2_def)

theorem french_words_plural_and_centimes_witness:
  "number_to_french_words sample_env (PyFloat (Fin (5 / 2)))
    = ''deux dinars et cinquante centimes''"
proof -
  have fl: "\<lfloor>5 / 2 :: rat\<rfloor> = 2" by (simp add: floor_rat_numeral)
  have nn: "(0::rat) \<le> 5 / 2" by simp
  have ip: "round_double (of_int \<lfloor>5 / 2 :: rat\<rfloor>) = Fin (of_int \<lfloor>5 / 2 :: rat\<rfloor>)"
    by (simp add: fl round_double_2)
  from french_words_plural_and_centimes [OF nn ip, of sample_env] obtain f g
    where f: "round_double (5 / 2 - of_int \<lfloor>5 / 2 :: rat\<rfloor>) = Fin f"
      and g: "round_double (f * 100) = Fin g"
      and w: "\<forall>w cw. num2words sample_env \<lfloor>5 / 2 :: rat\<rfloor> = Inr w
          \<and> (0 < round_half_even g \<longrightarrow> num2words sample_env (round_half_even g) = Inr cw) \<longrightarrow>
        number_to_french_words sample_env (PyFloat (Fin (5 / 2))) =
          w @ '' dinar'' @ (if \<lfloor>5 / 2 :: rat\<rfloor> = 1 then [] else ''s'')
            @ (if 0 < round_half_even g
               then '' et '' @ cw @ '' centime''
                 @ (if round_half_even g = 1 then [] else ''s'')
               else [])"
    by blast
  from f have "f = 1 / 2" by (simp add: fl round_double_half)
  with g have "g = 50" by (simp add: round_double_50)
  then have c: "round_half_even g = 50"
    using round_half_even_of_int [of 50] by simp
  have "num2words sample_env \<lfloor>5 / 2 :: rat\<rfloor> = Inr ''deux''
      \<and> (0 < round_half_even g \<longrightarrow> num2words sample_env (round_half_even g) = Inr ''cinquante'')"
    by (simp add: fl c sample_env_def sample_num2words_def)
  with w have "number_to_french_words sample_env (PyFloat (Fin (5 / 2))) =
      ''deux'' @ '' dinar'' @ (if \<lfloor>5 / 2 :: rat\<rfloor> = 1 then [] else ''s'')
        @ (if 0 < round_half_even g
           then '' et '' @ ''cinquante'' @ '' centime''
             @ (if round_half_even g = 1 then [] else ''s'')
           else [])"
    by blast
  then show ?thesis by (simp add: fl c)
qed

end
